theory Spec2Isabelle
  imports Complex_Main
begin

section \<open>Strings and rows\<close>

text \<open>
  The script works on Python \<open>str\<close> values read from a CSV file. A string is modelled as a
  \<open>char list\<close> whose characters are the code points below 256; the three string
  operations the script uses (\<open>strip\<close>, \<open>lower\<close>, \<open>in\<close>) are written out for that
  range.
\<close>

definition isspace :: "char \<Rightarrow> bool" where
  \<comment> \<open>\<open>str.isspace\<close> on one character: the white space that \<open>str.strip()\<close> removes\<close>
  "isspace c = (c \<in> set [CHR 0x09, CHR 0x0A, CHR 0x0B, CHR 0x0C, CHR 0x0D,
                          CHR 0x1C, CHR 0x1D, CHR 0x1E, CHR 0x1F, CHR 0x20,
                          CHR 0x85, CHR 0xA0])"

definition strip :: "string \<Rightarrow> string" where
  \<comment> \<open>\<open>s.strip()\<close>\<close>
  "strip s = rev (dropWhile isspace (rev (dropWhile isspace s)))"

definition lower_char :: "char \<Rightarrow> char" where
  "lower_char c =
     (let n = (of_char c :: nat)
      in if (65 \<le> n \<and> n \<le> 90) \<or> (192 \<le> n \<and> n \<le> 222 \<and> n \<noteq> 215)
         then char_of (n + 32) else c)"

definition lower :: "string \<Rightarrow> string" where
  \<comment> \<open>\<open>s.lower()\<close>\<close>
  "lower s = map lower_char s"

fun starts_with :: "string \<Rightarrow> string \<Rightarrow> bool" where
  "starts_with [] s = True"
| "starts_with (p # ps) [] = False"
| "starts_with (p # ps) (c # cs) = (p = c \<and> starts_with ps cs)"

fun str_in :: "string \<Rightarrow> string \<Rightarrow> bool" where
  \<comment> \<open>\<open>sub in s\<close>: \<open>sub\<close> occurs in \<open>s\<close> as a contiguous run\<close>
  "str_in sub [] = (sub = [])"
| "str_in sub (c # cs) = (starts_with sub (c # cs) \<or> str_in sub cs)"

type_synonym row = "string \<rightharpoonup> string"

definition get_or_empty :: "row \<Rightarrow> string \<Rightarrow> string" where
  \<comment> \<open>\<open>row.get(col) or ""\<close>: a missing column and an empty cell both read as the empty string\<close>
  "get_or_empty r col = (case r col of None \<Rightarrow> [] | Some v \<Rightarrow> v)"

section \<open>Row filter\<close>

definition should_include_row ::
  "row \<Rightarrow> string \<Rightarrow> string list \<Rightarrow> string list \<Rightarrow> bool \<Rightarrow> bool" where
  "should_include_row r wave_filter server_filter filter_columns case_sensitive =
     (if wave_filter \<noteq> [] \<and>
         \<not> (if case_sensitive
            then list_ex (\<lambda>col. str_in wave_filter (get_or_empty r col)) filter_columns
            else list_ex (\<lambda>col. str_in (lower wave_filter) (lower (get_or_empty r col)))
                   filter_columns)
      then False
      else if server_filter \<noteq> [] \<and>
         \<not> (let src_name = lower (strip (get_or_empty r ''src_name''));
                dest_name = lower (strip (get_or_empty r ''dest_name''))
            in list_ex (\<lambda>srv. str_in (lower srv) src_name \<or> str_in (lower srv) dest_name)
                 server_filter)
      then False
      else let src_name = lower (strip (get_or_empty r ''src_name''));
               dest_name = lower (strip (get_or_empty r ''dest_name''))
           in if src_name \<noteq> [] \<and> dest_name \<noteq> [] \<and> src_name = dest_name then False else True)"

section \<open>Service index\<close>

text \<open>
  A Python \<open>dict\<close> is iterated in insertion order; the two mapping tables are association
  lists in that order. The index built from the service table is a finite map.
\<close>

type_synonym service_map = "(string \<times> string list) list"
type_synonym location_map = "(string \<times> string list) list"

definition build_ip_to_service_index :: "service_map \<Rightarrow> (string \<rightharpoonup> string)" where
  "build_ip_to_service_index service_map =
     fold (\<lambda>(service, ips) index. fold (\<lambda>ip index. index(strip ip \<mapsto> service)) ips index)
       service_map Map.empty"

section \<open>Addresses and networks\<close>

text \<open>
  The script parses addresses and networks with the \<open>ipaddress\<close> module of the Python
  standard library. Its IPv4 side is written out below (dotted quads without leading zeros,
  a prefix length or a dotted net mask or host mask after the slash, host bits masked away
  because the script passes \<open>strict=False\<close>). \<open>ip_network\<close> falls back to the IPv6
  parser when the IPv4 one rejects the text; the IPv6 parser is a parameter \<open>v6\<close> giving
  the network address and the prefix length.
\<close>

definition isdigit :: "char \<Rightarrow> bool" where
  "isdigit c = (c \<in> set ''0123456789'')"

definition digit_val :: "char \<Rightarrow> int" where
  "digit_val c = of_char c - 48"

definition int_of_digits :: "string \<Rightarrow> int" where
  \<comment> \<open>\<open>int(s, 10)\<close> on a string of digits\<close>
  "int_of_digits s = foldl (\<lambda>n c. 10 * n + digit_val c) 0 s"

fun split_on :: "char \<Rightarrow> string \<Rightarrow> string list" where
  \<comment> \<open>\<open>s.split(sep)\<close>\<close>
  "split_on sep [] = [[]]"
| "split_on sep (c # cs) =
     (if c = sep then [] # split_on sep cs
      else (case split_on sep cs of [] \<Rightarrow> [[c]] | w # ws \<Rightarrow> (c # w) # ws))"

definition parse_octet :: "string \<Rightarrow> int option" where
  "parse_octet octet_str =
     (if octet_str = [] then None
      else if \<not> list_all isdigit octet_str then None
      else if length octet_str > 3 then None
      else if octet_str \<noteq> ''0'' \<and> hd octet_str = CHR ''0'' then None
      else if int_of_digits octet_str > 255 then None
      else Some (int_of_digits octet_str))"

definition ip_int_from_string :: "string \<Rightarrow> int option" where
  "ip_int_from_string ip_str =
     (if ip_str = [] then None
      else (case map parse_octet (split_on CHR ''.'' ip_str) of
              [Some a, Some b, Some c, Some d] \<Rightarrow> Some (((a * 256 + b) * 256 + c) * 256 + d)
            | _ \<Rightarrow> None))"

definition IPv4Address :: "string \<Rightarrow> int option" where
  "IPv4Address address =
     (if CHR ''/'' \<in> set address then None else ip_int_from_string address)"

definition ALL_ONES :: int where
  "ALL_ONES = 2 ^ 32 - 1"

definition ip_int_from_prefix :: "nat \<Rightarrow> int" where
  \<comment> \<open>the net mask of a prefix length\<close>
  "ip_int_from_prefix prefixlen = Bit_Operations.xor ALL_ONES (drop_bit prefixlen ALL_ONES)"

definition prefix_from_prefix_string :: "string \<Rightarrow> nat option" where
  "prefix_from_prefix_string prefixlen_str =
     (if prefixlen_str \<noteq> [] \<and> list_all isdigit prefixlen_str \<and> int_of_digits prefixlen_str \<le> 32
      then Some (nat (int_of_digits prefixlen_str)) else None)"

fun count_righthand_zero_bits :: "int \<Rightarrow> nat \<Rightarrow> nat" where
  "count_righthand_zero_bits number 0 = 0"
| "count_righthand_zero_bits number (Suc bits) =
     (if even number then Suc (count_righthand_zero_bits (number div 2) bits) else 0)"

definition prefix_from_ip_int :: "int \<Rightarrow> nat option" where
  "prefix_from_ip_int ip_int =
     (let trailing_zeroes = count_righthand_zero_bits ip_int 32;
          prefixlen = 32 - trailing_zeroes;
          leading_ones = drop_bit trailing_zeroes ip_int;
          all_ones = 2 ^ prefixlen - 1
      in if leading_ones \<noteq> all_ones then None else Some prefixlen)"

definition prefix_from_ip_string :: "string \<Rightarrow> nat option" where
  "prefix_from_ip_string ip_str =
     (case ip_int_from_string ip_str of
        None \<Rightarrow> None
      | Some ip_int \<Rightarrow>
          (case prefix_from_ip_int ip_int of
             Some p \<Rightarrow> Some p
           | None \<Rightarrow> prefix_from_ip_int (Bit_Operations.xor ip_int ALL_ONES)))"

definition make_netmask :: "string \<Rightarrow> nat option" where
  \<comment> \<open>the prefix length that the text after the slash stands for\<close>
  "make_netmask arg =
     (case prefix_from_prefix_string arg of
        Some p \<Rightarrow> Some p
      | None \<Rightarrow> prefix_from_ip_string arg)"

datatype network = Net4 int nat | Net6 int nat

fun prefixlen :: "network \<Rightarrow> nat" where
  "prefixlen (Net4 a p) = p"
| "prefixlen (Net6 a p) = p"

definition IPv4Network :: "string \<Rightarrow> network option" where
  \<comment> \<open>\<open>IPv4Network(address, strict=False)\<close>\<close>
  "IPv4Network address =
     (case split_on CHR ''/'' address of
        [addr] \<Rightarrow>
          (case IPv4Address addr of
             None \<Rightarrow> None
           | Some packed \<Rightarrow> Some (Net4 (Bit_Operations.and packed (ip_int_from_prefix 32)) 32))
      | [addr, mask_str] \<Rightarrow>
          (case IPv4Address addr of
             None \<Rightarrow> None
           | Some packed \<Rightarrow>
               (case make_netmask mask_str of
                  None \<Rightarrow> None
                | Some p \<Rightarrow> Some (Net4 (Bit_Operations.and packed (ip_int_from_prefix p)) p)))
      | _ \<Rightarrow> None)"

definition ip_network :: "(string \<Rightarrow> (int \<times> nat) option) \<Rightarrow> string \<Rightarrow> network option" where
  \<comment> \<open>\<open>ipaddress.ip_network(address, strict=False)\<close>; \<open>None\<close> is the \<open>ValueError\<close>\<close>
  "ip_network v6 address =
     (case IPv4Network address of
        Some n \<Rightarrow> Some n
      | None \<Rightarrow> (case v6 address of None \<Rightarrow> None | Some (a, p) \<Rightarrow> Some (Net6 a p)))"

fun contains :: "network \<Rightarrow> int \<Rightarrow> bool" where
  \<comment> \<open>\<open>ip_obj in network\<close> for an IPv4 address: a network of the other version never contains it\<close>
  "contains (Net4 a p) ip = (Bit_Operations.and ip (ip_int_from_prefix p) = a)"
| "contains (Net6 a p) ip = False"

section \<open>Location index\<close>

definition compile_subnets ::
  "(string \<Rightarrow> (int \<times> nat) option) \<Rightarrow> location_map \<Rightarrow> (network \<times> string) list" where
  \<comment> \<open>the two nested loops of \<open>build_subnet_index\<close>: an invalid CIDR is skipped\<close>
  "compile_subnets v6 subnets_by_location =
     concat (map (\<lambda>(location, cidrs).
                    List.map_filter (\<lambda>cidr. map_option (\<lambda>n. (n, location))
                                              (ip_network v6 (strip cidr))) cidrs)
                 subnets_by_location)"

definition build_subnet_index ::
  "(string \<Rightarrow> (int \<times> nat) option) \<Rightarrow> location_map \<Rightarrow> (network \<times> string) list" where
  \<comment> \<open>\<open>compiled.sort(key=prefixlen, reverse=True)\<close> is a stable sort, longest prefix first\<close>
  "build_subnet_index v6 subnets_by_location =
     sort_key (\<lambda>item. - int (prefixlen (fst item))) (compile_subnets v6 subnets_by_location)"

fun first_containing :: "int \<Rightarrow> (network \<times> string) list \<Rightarrow> string option" where
  \<comment> \<open>the \<open>for\<close> loop of \<open>find_location_for_ip\<close>\<close>
  "first_containing ip_obj [] = None"
| "first_containing ip_obj ((network, location) # rest) =
     (if contains network ip_obj then Some location else first_containing ip_obj rest)"

definition find_location_for_ip :: "string \<Rightarrow> (network \<times> string) list \<Rightarrow> string option" where
  "find_location_for_ip ip_str subnet_index =
     (let ip_str = strip ip_str
      in if ip_str = [] then None
         else (case IPv4Address ip_str of
                 None \<Rightarrow> None
               | Some ip_obj \<Rightarrow> first_containing ip_obj subnet_index))"

section \<open>Row enrichment\<close>

definition enrich_row_with_services :: "row \<Rightarrow> (string \<rightharpoonup> string) \<Rightarrow> row" where
  \<comment> \<open>the row is changed in place by the script; here the changed row is returned\<close>
  "enrich_row_with_services r ip_to_service =
     (let src_ip = strip (get_or_empty r ''src_addr'');
          dest_ip = strip (get_or_empty r ''dest_addr'');
          r = r(''src_service'' \<mapsto>
                 (case ip_to_service src_ip of None \<Rightarrow> ''unknown'' | Some service \<Rightarrow> service))
      in r(''dest_service'' \<mapsto>
             (case ip_to_service dest_ip of None \<Rightarrow> ''unknown'' | Some service \<Rightarrow> service)))"

definition LOC_NORMALIZATION :: "(string \<times> string) list" where
  "LOC_NORMALIZATION =
     [(''risc-unknown-internet'', ''Public''), (''risc-unknown-private'', ''Private'')]"

definition normalize_loc :: "string \<Rightarrow> row \<Rightarrow> row" where
  \<comment> \<open>one round of the normalisation loop of \<open>enrich_row_with_locations\<close>\<close>
  "normalize_loc col r =
     (let current = strip (get_or_empty r col)
      in if current \<noteq> []
         then (case map_of LOC_NORMALIZATION (lower current) of
                 Some normalized \<Rightarrow> r(col \<mapsto> normalized)
               | None \<Rightarrow> r)
         else r)"

definition enrich_row_with_locations :: "row \<Rightarrow> (network \<times> string) list \<Rightarrow> row" where
  "enrich_row_with_locations r subnet_index =
     (let src_ip = strip (get_or_empty r ''src_addr'');
          dest_ip = strip (get_or_empty r ''dest_addr'');
          r = (case find_location_for_ip src_ip subnet_index of
                 Some src_loc \<Rightarrow> r(''src_loc'' \<mapsto> src_loc)
               | None \<Rightarrow> r);
          r = (case find_location_for_ip dest_ip subnet_index of
                 Some dest_loc \<Rightarrow> r(''dest_loc'' \<mapsto> dest_loc)
               | None \<Rightarrow> r)
      in fold normalize_loc [''src_loc'', ''dest_loc''] r)"

definition PORT_COMMENTS :: "(int \<times> string) list" where
  \<comment> \<open>the port table in the order the script writes it, which is the order it is scanned in\<close>
  "PORT_COMMENTS = [(25, ''SMTP''), (8080, ''Proxy''), (10065, ''Zscaler''), (383, ''Rule OMI'')]"

function digits_of :: "int \<Rightarrow> string" where
  "digits_of n =
     (if n < 10 then [char_of (48 + n)]
      else digits_of (n div 10) @ [char_of (48 + n mod 10)])"
  by pat_completeness auto
termination
  by (relation "measure nat") auto

declare digits_of.simps [simp del]

definition str_of_int :: "int \<Rightarrow> string" where
  \<comment> \<open>the decimal text of a port number, as the f-string of \<open>port_matches\<close> formats it\<close>
  "str_of_int n = (if n < 0 then CHR ''-'' # digits_of (- n) else digits_of n)"

definition match_here :: "string \<Rightarrow> string \<Rightarrow> bool" where
  \<comment> \<open>the pattern text stands at the start of \<open>s\<close> and no digit follows it\<close>
  "match_here pat s =
     (starts_with pat s \<and> (case drop (length pat) s of [] \<Rightarrow> True | c # _ \<Rightarrow> \<not> isdigit c))"

fun search_from :: "bool \<Rightarrow> string \<Rightarrow> string \<Rightarrow> bool" where
  \<comment> \<open>\<open>re.search\<close> for the pattern between the two look-arounds; the flag tells whether the
      character before the current position is a digit\<close>
  "search_from prev_digit pat [] = (\<not> prev_digit \<and> match_here pat [])"
| "search_from prev_digit pat (c # cs) =
     ((\<not> prev_digit \<and> match_here pat (c # cs)) \<or> search_from (isdigit c) pat cs)"

definition port_matches :: "int \<Rightarrow> string option \<Rightarrow> bool" where
  "port_matches target_port port_value =
     (let port_str = (case port_value of None \<Rightarrow> [] | Some v \<Rightarrow> v)
      in search_from False (str_of_int target_port) port_str)"

fun first_port_comment :: "(int \<times> string) list \<Rightarrow> string option \<Rightarrow> string" where
  \<comment> \<open>the \<open>for\<close> loop over the port table, left at the first match; no match leaves the
      comment empty\<close>
  "first_port_comment [] dest_port = []"
| "first_port_comment ((port, label) # rest) dest_port =
     (if port_matches port dest_port then label else first_port_comment rest dest_port)"

definition enrich_row_with_comment :: "row \<Rightarrow> row" where
  "enrich_row_with_comment r =
     (let src_service = lower (strip (get_or_empty r ''src_service''));
          dest_service = lower (strip (get_or_empty r ''dest_service''));
          comment = (if src_service \<noteq> ''unknown'' \<or> dest_service \<noteq> ''unknown''
                     then ''skip shared services''
                     else first_port_comment PORT_COMMENTS (r ''dest_port''))
      in if comment \<noteq> [] then r(''COMMENTO'' \<mapsto> comment) else r)"

section \<open>The transform driver\<close>

text \<open>
  \<open>run_user_python_code\<close> reads the input file twice, writes a temporary file beside it and
  renames it at the end. Its model returns the effects of one run in the order they happen
  (the lines given to the log callback, the values given to the progress callback, and the
  steps on the file system) together with the exception that ended the run, if any.

  What the run takes from its surroundings is gathered in \<open>env\<close>: the outcome of reading the
  Excel mapping file, the IPv6 parser, the number of physical lines of the input, the time
  stamp and the temporary name chosen for the output, the clock reading taken after each
  processed row, and the places where an I/O step fails. A CSV file is the list of records
  that \<open>csv.reader\<close> yields from it, the header first. A log line is kept as its content,
  not as its text.
\<close>

datatype error = ValueError string | TypeError string | RuntimeError string | OSError string

datatype logline =
    LoadingMappings string
  | ServicesLoaded nat
  | LocationsLoaded nat
  | FoundRows nat
  | FilteringServers "string list"
  | FilteringWave string
  | CountingRows
  | RowsToProcess nat
  | Step nat
  | RowCount nat nat nat
  | Processed string
  | Generated string
  | SummaryHeader
  | Summary string nat nat

text \<open>
  \<open>Step i\<close> is the milestone line \<open>STEPS[i]\<close>, \<open>RowCount n total pct\<close> the line
  \<open>Row n/total (pct% done)\<close>, \<open>FoundRows n\<close> the line that gives the number of rows found,
  \<open>Summary srv out in\<close> the counters of one server of the filter; the other lines carry the
  name or the number that their text shows.
\<close>

datatype effect =
    Log logline
  | Progress nat
  | ReadFile string
  | CreateTemp string
  | WriteRecord string "string list"
  | Replace string string

datatype io_site =
    AtCountLines | AtOpenInput | AtCreateTemp | AtWriteHeader | AtCountPass | AtRow nat | AtReplace

type_synonym csv = "string list list"

record env =
  loaded :: "error + service_map \<times> location_map"
  ipv6_network :: "string \<Rightarrow> (int \<times> nat) option"
  line_count :: nat
  timestamp :: string
  tmp_name :: string
  clock :: "nat \<Rightarrow> real"
  io_fails :: "io_site \<Rightarrow> bool"

record loop_state =
  processed :: nat
  next_step :: nat
  last_ui_progress :: real
  last_ui_log :: real
  outbound_count :: "string \<rightharpoonup> nat"
  inbound_count :: "string \<rightharpoonup> nat"

definition THRESHOLDS :: "nat list" where
  "THRESHOLDS = [0, 25, 50, 75, 100]"

definition FILTER_COLUMNS :: "string list" where
  "FILTER_COLUMNS = [''src_group'', ''dest_group'']"

definition CASE_SENSITIVE :: bool where
  "CASE_SENSITIVE = True"

definition parent :: "string \<Rightarrow> string" where
  \<comment> \<open>\<open>Path(p).parent\<close> for a path written with \<open>/\<close>\<close>
  "parent p = rev (drop 1 (dropWhile (\<lambda>c. c \<noteq> CHR ''/'') (rev p)))"

definition basename :: "string \<Rightarrow> string" where
  "basename p = rev (takeWhile (\<lambda>c. c \<noteq> CHR ''/'') (rev p))"

definition join_path :: "string \<Rightarrow> string \<Rightarrow> string" where
  "join_path d name = d @ ''/'' @ name"

definition final_path :: "env \<Rightarrow> string \<Rightarrow> string" where
  "final_path e selected_file =
     join_path (parent selected_file) (''nutella_'' @ timestamp e @ ''.csv'')"

definition tmp_path :: "env \<Rightarrow> string \<Rightarrow> string" where
  \<comment> \<open>\<open>NamedTemporaryFile\<close> names its file \<open>tmp\<close> followed by random characters\<close>
  "tmp_path e selected_file = join_path (parent selected_file) (''tmp'' @ tmp_name e)"

fun join_str :: "string \<Rightarrow> string list \<Rightarrow> string" where
  \<comment> \<open>\<open>sep.join(xs)\<close>\<close>
  "join_str sep [] = []"
| "join_str sep [x] = x"
| "join_str sep (x # y # ys) = x @ sep @ join_str sep (y # ys)"

definition fieldnames_of :: "csv \<Rightarrow> string list option" where
  \<comment> \<open>\<open>reader.fieldnames\<close>: the first record, \<open>None\<close> for an empty file\<close>
  "fieldnames_of f = (case f of [] \<Rightarrow> None | header # _ \<Rightarrow> Some header)"

definition dict_row :: "string list \<Rightarrow> string list \<Rightarrow> row \<times> bool" where
  \<comment> \<open>one row of \<open>csv.DictReader\<close>; the flag tells that the record has more cells than the
      header, which the reader keeps under the key \<open>None\<close>\<close>
  "dict_row fieldnames cells =
     (map_of (rev (zip fieldnames cells)), length fieldnames < length cells)"

definition dict_rows :: "csv \<Rightarrow> (row \<times> bool) list" where
  \<comment> \<open>the rows \<open>csv.DictReader\<close> yields: blank records are skipped\<close>
  "dict_rows f =
     (case f of [] \<Rightarrow> []
      | header # rest \<Rightarrow> map (dict_row header) (filter (\<lambda>cells. cells \<noteq> []) rest))"

definition check_columns :: "string list option \<Rightarrow> string list \<Rightarrow> error + string list" where
  \<comment> \<open>the two checks of the header, in the order the script makes them\<close>
  "check_columns fieldnames server_filter =
     (case fieldnames of
        None \<Rightarrow> Inl (TypeError ''argument of type 'NoneType' is not iterable'')
      | Some names \<Rightarrow>
          (let missing = filter (\<lambda>c. c \<notin> set names) FILTER_COLUMNS
           in if missing \<noteq> [] then Inl (ValueError (''Missing columns: '' @ join_str '', '' missing))
              else if server_filter \<noteq> [] \<and>
                      (''src_name'' \<notin> set names \<or> ''dest_name'' \<notin> set names)
              then Inl (ValueError ''Colonne 'src_name' o 'dest_name' non trovate nel CSV'')
              else Inr names))"

definition output_fieldnames :: "string list \<Rightarrow> string list" where
  "output_fieldnames names =
     fold (\<lambda>col fieldnames. if col \<notin> set fieldnames then fieldnames @ [col] else fieldnames)
       [''src_service'', ''dest_service'', ''src_loc'', ''dest_loc'', ''COMMENTO''] names"

definition bump :: "(string \<rightharpoonup> nat) \<Rightarrow> string \<Rightarrow> (string \<rightharpoonup> nat)" where
  \<comment> \<open>\<open>counts[srv] += 1\<close>; every server of the filter has a counter from the start\<close>
  "bump counts srv = counts(srv \<mapsto> Suc (case counts srv of None \<Rightarrow> 0 | Some n \<Rightarrow> n))"

definition count_directions :: "string list \<Rightarrow> row \<Rightarrow> loop_state \<Rightarrow> loop_state" where
  "count_directions server_filter r st =
     (let src_name = lower (strip (get_or_empty r ''src_name''));
          dest_name = lower (strip (get_or_empty r ''dest_name''))
      in fold (\<lambda>srv st.
                 let srv_lower = lower srv;
                     st = (if str_in srv_lower src_name
                           then st\<lparr>outbound_count := bump (outbound_count st) srv\<rparr> else st)
                 in if str_in srv_lower dest_name
                    then st\<lparr>inbound_count := bump (inbound_count st) srv\<rparr> else st)
              server_filter st)"

definition percent :: "nat \<Rightarrow> nat \<Rightarrow> nat" where
  \<comment> \<open>\<open>int(processed * 100 / total_rows) if total_rows else 0\<close>; the quotient is taken exactly (the
      script divides in floating point, which gives the same whole part for any row count a
      file can have)\<close>
  "percent n total_rows = (if total_rows \<noteq> 0 then n * 100 div total_rows else 0)"

definition report_progress :: "env \<Rightarrow> nat \<Rightarrow> loop_state \<Rightarrow> effect list \<times> loop_state" where
  \<comment> \<open>the end of the loop body: count the row, then the milestone line, the throttled
      progress value and the throttled log line\<close>
  "report_progress e total_rows st =
     (let n = processed st + 1;
          now = clock e n;
          pct = percent n total_rows;
          milestone = (next_step st < length THRESHOLDS \<and> THRESHOLDS ! next_step st \<le> pct);
          ui = (now - last_ui_progress st \<ge> 1 \<or> n = total_rows);
          lg = (now - last_ui_log st \<ge> 2 \<or> n = total_rows)
      in ((if milestone then [Log (Step (next_step st))] else []) @
          (if ui then [Progress pct] else []) @
          (if lg then [Log (RowCount n total_rows pct)] else []),
          st\<lparr>processed := n,
             next_step := (if milestone then next_step st + 1 else next_step st),
             last_ui_progress := (if ui then now else last_ui_progress st),
             last_ui_log := (if lg then now else last_ui_log st)\<rparr>))"

definition process_row ::
  "env \<Rightarrow> string \<Rightarrow> string list \<Rightarrow> (string \<rightharpoonup> string) \<Rightarrow> (network \<times> string) list \<Rightarrow>
   string list \<Rightarrow> nat \<Rightarrow> string \<Rightarrow> nat \<Rightarrow> row \<times> bool \<Rightarrow> loop_state \<Rightarrow>
   effect list \<times> (error + loop_state)" where
  \<comment> \<open>the body of the second pass for the record number \<open>k\<close> of the input\<close>
  "process_row e wave_filter server_filter ip_to_service subnet_index fieldnames total_rows tmp k rx st =
     (if io_fails e (AtRow k) then ([], Inl (OSError tmp))
      else if \<not> should_include_row (fst rx) wave_filter server_filter FILTER_COLUMNS CASE_SENSITIVE
      then ([], Inr st)
      else let st = count_directions server_filter (fst rx) st;
               r = enrich_row_with_services (fst rx) ip_to_service;
               r = enrich_row_with_locations r subnet_index;
               r = enrich_row_with_comment r
           in if snd rx then ([], Inl (ValueError ''dict contains fields not in fieldnames''))
              else (case report_progress e total_rows st of
                      (es, st') \<Rightarrow> (WriteRecord tmp (map (get_or_empty r) fieldnames) # es, Inr st')))"

fun for_rows ::
  "(nat \<Rightarrow> 'r \<Rightarrow> 's \<Rightarrow> effect list \<times> (error + 's)) \<Rightarrow> nat \<Rightarrow> 'r list \<Rightarrow> 's \<Rightarrow>
   effect list \<times> (error + 's)" where
  \<comment> \<open>a \<open>for\<close> loop over the records that an exception leaves\<close>
  "for_rows body k [] st = ([], Inr st)"
| "for_rows body k (r # rs) st =
     (case body k r st of
        (es, Inl err) \<Rightarrow> (es, Inl err)
      | (es, Inr st') \<Rightarrow> (case for_rows body (Suc k) rs st' of (es', res) \<Rightarrow> (es @ es', res)))"

definition and_then ::
  "effect list \<times> (error + 'a) \<Rightarrow> ('a \<Rightarrow> effect list \<times> (error + 'b)) \<Rightarrow>
   effect list \<times> (error + 'b)" where
  \<comment> \<open>one step after another: an exception ends the run with the effects so far\<close>
  "and_then m f =
     (case m of
        (es, Inl err) \<Rightarrow> (es, Inl err)
      | (es, Inr a) \<Rightarrow> (case f a of (es', res) \<Rightarrow> (es @ es', res)))"

definition open_input ::
  "env \<Rightarrow> io_site \<Rightarrow> (string \<rightharpoonup> csv) \<Rightarrow> string \<Rightarrow> effect list \<times> (error + csv)" where
  "open_input e site fs p =
     (if io_fails e site then ([], Inl (OSError p))
      else (case fs p of None \<Rightarrow> ([], Inl (OSError p)) | Some f \<Rightarrow> ([ReadFile p], Inr f)))"

definition create_temp ::
  "env \<Rightarrow> (string \<rightharpoonup> csv) \<Rightarrow> string \<Rightarrow> effect list \<times> (error + unit)" where
  \<comment> \<open>the temporary file is created only under a name that is free\<close>
  "create_temp e fs p =
     (if io_fails e AtCreateTemp \<or> fs p \<noteq> None then ([], Inl (OSError p))
      else ([CreateTemp p], Inr ()))"

definition step_at :: "env \<Rightarrow> io_site \<Rightarrow> string \<Rightarrow> effect list \<Rightarrow> effect list \<times> (error + unit)" where
  \<comment> \<open>an I/O step: it fails with no effect, or happens\<close>
  "step_at e site p es = (if io_fails e site then ([], Inl (OSError p)) else (es, Inr ()))"

definition initial_state :: "string list \<Rightarrow> loop_state" where
  "initial_state server_filter =
     \<lparr>processed = 0, next_step = 0, last_ui_progress = 0, last_ui_log = 0,
      outbound_count = map_of (map (\<lambda>srv. (srv, 0)) server_filter),
      inbound_count = map_of (map (\<lambda>srv. (srv, 0)) server_filter)\<rparr>"

definition summary :: "string list \<Rightarrow> loop_state \<Rightarrow> effect list" where
  "summary server_filter st =
     (if server_filter \<noteq> []
      then Log SummaryHeader #
           map (\<lambda>srv. Log (Summary srv
                              (case outbound_count st srv of None \<Rightarrow> 0 | Some n \<Rightarrow> n)
                              (case inbound_count st srv of None \<Rightarrow> 0 | Some n \<Rightarrow> n)))
               server_filter
      else [])"

definition transform ::
  "env \<Rightarrow> (string \<rightharpoonup> csv) \<Rightarrow> string \<Rightarrow> string list \<Rightarrow> string \<Rightarrow>
   service_map \<Rightarrow> location_map \<Rightarrow> effect list \<times> (error + loop_state)" where
  \<comment> \<open>the \<open>with\<close> block: both files are open, the header is checked, the rows are counted and
      then processed\<close>
  "transform e fs selected_file server_filter wave_filter srv_map loc_map =
     (let ip_to_service = build_ip_to_service_index srv_map;
          subnet_index = build_subnet_index (ipv6_network e) loc_map;
          tmp = tmp_path e selected_file
      in and_then (open_input e AtOpenInput fs selected_file) (\<lambda>src.
         and_then (create_temp e fs tmp) (\<lambda>_.
         and_then ([], check_columns (fieldnames_of src) server_filter) (\<lambda>names.
         and_then (step_at e AtWriteHeader tmp [WriteRecord tmp (output_fieldnames names)]) (\<lambda>_.
         and_then (step_at e AtCountPass selected_file []) (\<lambda>_.
           let total_rows_to_process =
                 length (filter (\<lambda>rx. should_include_row (fst rx) wave_filter server_filter
                                         FILTER_COLUMNS CASE_SENSITIVE) (dict_rows src))
           in and_then ([Log (RowsToProcess total_rows_to_process)], Inr ()) (\<lambda>_.
                for_rows (process_row e wave_filter server_filter ip_to_service subnet_index
                            (output_fieldnames names) total_rows_to_process tmp)
                  0 (dict_rows src) (initial_state server_filter))))))))"

text \<open>
  The number of rows found is \<open>max(lines - 1, 0)\<close>, which is the difference of natural
  numbers.
\<close>

definition run_user_python_code ::
  "env \<Rightarrow> (string \<rightharpoonup> csv) \<Rightarrow> string \<Rightarrow> string \<Rightarrow> string list \<Rightarrow> string \<Rightarrow>
   effect list \<times> (error + unit)" where
  "run_user_python_code e fs selected_file selected_excel server_filter wave_filter =
     (if selected_file = [] then ([], Inl (ValueError ''Select a CSV first.''))
      else if selected_excel = []
      then ([], Inl (ValueError ''Devi selezionare l'Excel con i fogli 'servizi' e 'location'.''))
      else
        and_then ([Log (LoadingMappings selected_excel)], loaded e) (\<lambda>(srv_map, loc_map).
        and_then ([Log (ServicesLoaded (length srv_map)), Log (LocationsLoaded (length loc_map))],
                  Inr ()) (\<lambda>_.
        and_then (open_input e AtCountLines fs selected_file) (\<lambda>_.
        and_then ([Log (FoundRows (line_count e - 1))] @
                  (if server_filter \<noteq> [] then [Log (FilteringServers server_filter)] else []) @
                  (if wave_filter \<noteq> [] then [Log (FilteringWave wave_filter)] else []) @
                  [Log CountingRows], Inr ()) (\<lambda>_.
        and_then (transform e fs selected_file server_filter wave_filter srv_map loc_map) (\<lambda>st.
        and_then ([Progress 100], Inr ()) (\<lambda>_.
        and_then (step_at e AtReplace (final_path e selected_file)
                    [Replace (tmp_path e selected_file) (final_path e selected_file)]) (\<lambda>_.
          ([Log (Processed (basename selected_file)),
            Log (Generated (basename (final_path e selected_file)))] @
           summary server_filter st, Inr ())))))))))"

fun apply_effect :: "effect \<Rightarrow> (string \<rightharpoonup> csv) \<Rightarrow> (string \<rightharpoonup> csv)" where
  \<comment> \<open>what one effect does to the files\<close>
  "apply_effect (CreateTemp p) fs = fs(p \<mapsto> [])"
| "apply_effect (WriteRecord p cells) fs =
     fs(p \<mapsto> (case fs p of None \<Rightarrow> [] | Some f \<Rightarrow> f) @ [cells])"
| "apply_effect (Replace a b) fs = (fs(b := fs a))(a := None)"
| "apply_effect (Log l) fs = fs"
| "apply_effect (Progress v) fs = fs"
| "apply_effect (ReadFile p) fs = fs"

fun touches :: "string \<Rightarrow> effect \<Rightarrow> bool" where
  \<comment> \<open>the effect creates, writes, renames or replaces the file at this path\<close>
  "touches p (CreateTemp q) = (p = q)"
| "touches p (WriteRecord q cells) = (p = q)"
| "touches p (Replace a b) = (p = a \<or> p = b)"
| "touches p (Log l) = False"
| "touches p (Progress v) = False"
| "touches p (ReadFile q) = False"

fun is_file_step :: "effect \<Rightarrow> bool" where
  "is_file_step (Log l) = False"
| "is_file_step (Progress v) = False"
| "is_file_step _ = True"

fun progress_values :: "effect list \<Rightarrow> nat list" where
  \<comment> \<open>the values given to the progress callback, in order\<close>
  "progress_values [] = []"
| "progress_values (Progress v # es) = v # progress_values es"
| "progress_values (eff # es) = progress_values es"

fun milestones :: "effect list \<Rightarrow> nat list" where
  \<comment> \<open>the milestone lines given to the log callback, in order, by their place in \<open>STEPS\<close>\<close>
  "milestones [] = []"
| "milestones (Log (Step i) # es) = i # milestones es"
| "milestones (eff # es) = milestones es"

fun is_note :: "effect \<Rightarrow> bool" where
  \<comment> \<open>a log line other than a milestone, or the reading of a file\<close>
  "is_note (Log (Step i)) = False"
| "is_note (Log l) = True"
| "is_note (ReadFile p) = True"
| "is_note eff = False"

section \<open>The end-to-end scenario\<close>

text \<open>
  The input of the scenario that the specification gives as a test: one data row under seven
  columns, no service, one location with one subnet, a clock that stands still and no I/O
  failure.
\<close>

definition scenario_env :: env where
  "scenario_env =
     \<lparr>loaded = Inr ([], [(''DC1'', [''10.0.0.0/24''])]),
      ipv6_network = (\<lambda>address. None),
      line_count = 2,
      timestamp = ''2025-01-01_00-00-00'',
      tmp_name = ''abcd1234'',
      clock = (\<lambda>n. 0),
      io_fails = (\<lambda>site. False)\<rparr>"

definition scenario_files :: "string \<rightharpoonup> csv" where
  "scenario_files =
     [''data/in.csv'' \<mapsto>
        [[''src_group'', ''dest_group'', ''src_addr'', ''dest_addr'', ''dest_port'', ''src_name'',
          ''dest_name''],
         [''Wave4'', ''Wave4'', ''10.0.0.5'', ''10.0.0.9'', ''25'', ''host1'', ''host2'']]]"

section \<open>Properties of location resolution\<close>

lemma index_sorted:
  "sorted (map (\<lambda>item. - int (prefixlen (fst item))) (build_subnet_index v6 m))"
  by (simp add: build_subnet_index_def)

lemma same_prefix_same_network:
  "contains n ip \<Longrightarrow> contains n' ip \<Longrightarrow> prefixlen n' = prefixlen n \<Longrightarrow> n' = n"
  by (cases n; cases n') auto

lemma first_containing_longest:
  assumes "sorted (map (\<lambda>item. - int (prefixlen (fst item))) idx)"
    and "\<exists>(n, l)\<in>set idx. contains n ip"
  shows "\<exists>net loc. first_containing ip idx = Some loc \<and> (net, loc) \<in> set idx \<and> contains net ip
           \<and> (\<forall>(n', l')\<in>set idx. contains n' ip \<longrightarrow> prefixlen n' \<le> prefixlen net)"
  using assms
proof (induction idx)
  case Nil
  then show ?case by simp
next
  case (Cons entry idx)
  obtain n l where entry: "entry = (n, l)" by (cases entry)
  show ?case
  proof (cases "contains n ip")
    case True
    have "\<forall>(n', l')\<in>set (entry # idx). prefixlen n' \<le> prefixlen n"
      using Cons.prems(1) entry by auto
    with True entry show ?thesis by auto
  next
    case False
    with Cons.prems entry have s: "sorted (map (\<lambda>item. - int (prefixlen (fst item))) idx)"
      and e: "\<exists>(n, l)\<in>set idx. contains n ip"
      by auto
    from Cons.IH [OF s e] obtain net loc where
      "first_containing ip idx = Some loc" "(net, loc) \<in> set idx" "contains net ip"
      "\<forall>(n', l')\<in>set idx. contains n' ip \<longrightarrow> prefixlen n' \<le> prefixlen net"
      by blast
    with False entry show ?thesis by auto
  qed
qed

lemma no_address_in_empty_text: "IPv4Address [] = None"
  by (simp add: IPv4Address_def ip_int_from_string_def)

text \<open>
  C1. Longest-prefix match: when the trimmed text parses as the IPv4 address \<open>x\<close> and the
  index compiled by \<open>build_subnet_index\<close> has networks that contain \<open>x\<close>,
  \<open>find_location_for_ip\<close> returns the location paired with a network of the index that
  contains \<open>x\<close> and whose prefix is the longest among the networks of the index containing
  \<open>x\<close>; any network of the index containing \<open>x\<close> with a prefix of that length is that
  network.
\<close>

theorem longest_prefix_match:
  assumes "IPv4Address (strip ip_str) = Some x"
    and "\<exists>(n, l)\<in>set (build_subnet_index v6 location_map). contains n x"
  shows "\<exists>net loc. find_location_for_ip ip_str (build_subnet_index v6 location_map) = Some loc
           \<and> (net, loc) \<in> set (build_subnet_index v6 location_map) \<and> contains net x
           \<and> (\<forall>(n', l')\<in>set (build_subnet_index v6 location_map).
                 contains n' x \<longrightarrow>
                   prefixlen n' \<le> prefixlen net \<and> (prefixlen n' = prefixlen net \<longrightarrow> n' = net))"
proof -
  have ne: "strip ip_str \<noteq> []"
    using assms(1) no_address_in_empty_text by auto
  have f: "find_location_for_ip ip_str (build_subnet_index v6 location_map)
             = first_containing x (build_subnet_index v6 location_map)"
    using ne assms(1) by (simp add: find_location_for_ip_def Let_def)
  from first_containing_longest [OF index_sorted assms(2)] obtain net loc where r:
    "first_containing x (build_subnet_index v6 location_map) = Some loc"
    "(net, loc) \<in> set (build_subnet_index v6 location_map)" "contains net x"
    "\<forall>(n', l')\<in>set (build_subnet_index v6 location_map).
        contains n' x \<longrightarrow> prefixlen n' \<le> prefixlen net"
    by blast
  have "\<forall>(n', l')\<in>set (build_subnet_index v6 location_map).
          contains n' x \<longrightarrow>
            prefixlen n' \<le> prefixlen net \<and> (prefixlen n' = prefixlen net \<longrightarrow> n' = net)"
    using r(3,4) same_prefix_same_network by blast
  with f r show ?thesis by auto
qed

theorem longest_prefix_match_witness:
  "IPv4Address (strip '' 10.0.0.5'') = Some 167772165
   \<and> (\<exists>(n, l)\<in>set (build_subnet_index (\<lambda>_. None)
          [(''Site'', [''10.0.0.0/8'', ''10.0.0.0/16'']), (''Rack'', [''10.0.0.0/24'']),
           (''Other'', [''192.168.0.0/28''])]). contains n 167772165)
   \<and> build_subnet_index (\<lambda>_. None)
          [(''Site'', [''10.0.0.0/8'', ''10.0.0.0/16'']), (''Rack'', [''10.0.0.0/24'']),
           (''Other'', [''192.168.0.0/28''])]
       = [(Net4 3232235520 28, ''Other''), (Net4 167772160 24, ''Rack''),
          (Net4 167772160 16, ''Site''), (Net4 167772160 8, ''Site'')]
   \<and> find_location_for_ip '' 10.0.0.5'' (build_subnet_index (\<lambda>_. None)
          [(''Site'', [''10.0.0.0/8'', ''10.0.0.0/16'']), (''Rack'', [''10.0.0.0/24'']),
           (''Other'', [''192.168.0.0/28''])]) = Some ''Rack''"
proof -
  let ?m = "[(''Site'', [''10.0.0.0/8'', ''10.0.0.0/16'']), (''Rack'', [''10.0.0.0/24'']),
             (''Other'', [''192.168.0.0/28''])]"
  have h1: "IPv4Address (strip '' 10.0.0.5'') = Some 167772165" by code_simp
  have i: "build_subnet_index (\<lambda>_. None) ?m
       = [(Net4 3232235520 28, ''Other''), (Net4 167772160 24, ''Rack''),
          (Net4 167772160 16, ''Site''), (Net4 167772160 8, ''Site'')]"
    by code_simp
  have c: "contains (Net4 167772160 24) 167772165" "\<not> contains (Net4 3232235520 28) 167772165"
    by code_simp+
  have h2: "\<exists>(n, l)\<in>set (build_subnet_index (\<lambda>_. None) ?m). contains n 167772165"
    unfolding i using c by simp
  from longest_prefix_match [OF h1 h2] obtain net loc where r:
    "find_location_for_ip '' 10.0.0.5'' (build_subnet_index (\<lambda>_. None) ?m) = Some loc"
    "(net, loc) \<in> set (build_subnet_index (\<lambda>_. None) ?m)" "contains net 167772165"
    "\<forall>(n', l')\<in>set (build_subnet_index (\<lambda>_. None) ?m).
        contains n' 167772165 \<longrightarrow>
          prefixlen n' \<le> prefixlen net \<and> (prefixlen n' = prefixlen net \<longrightarrow> n' = net)"
    by blast
  have "prefixlen (Net4 167772160 24) \<le> prefixlen net"
    using r(4) c(1) unfolding i by simp
  with r(2,3) c(2) have "loc = ''Rack''"
    unfolding i by auto
  with r(1) h1 h2 i show ?thesis by simp
qed

text \<open>
  C2. The end-to-end scenario: the row \<open>Wave4,Wave4,10.0.0.5,10.0.0.9,25,host1,host2\<close> under
  the seven-column header passes the filter for the wave \<open>Wave4\<close>; with an empty service
  table and the location table \<open>DC1: 10.0.0.0/24\<close>, the three enrichment steps give
  \<open>src_service = unknown\<close>, \<open>dest_service = unknown\<close>, \<open>src_loc = DC1\<close>, \<open>dest_loc = DC1\<close> and
  \<open>COMMENTO = SMTP\<close>.
\<close>

theorem end_to_end_scenario:
  "(let r = fst (dict_row [''src_group'', ''dest_group'', ''src_addr'', ''dest_addr'', ''dest_port'',
                           ''src_name'', ''dest_name'']
                          [''Wave4'', ''Wave4'', ''10.0.0.5'', ''10.0.0.9'', ''25'', ''host1'', ''host2'']);
        out = enrich_row_with_comment
                (enrich_row_with_locations
                   (enrich_row_with_services r (build_ip_to_service_index []))
                   (build_subnet_index v6 [(''DC1'', [''10.0.0.0/24''])]))
    in should_include_row r ''Wave4'' [] FILTER_COLUMNS CASE_SENSITIVE
       \<and> out ''src_service'' = Some ''unknown'' \<and> out ''dest_service'' = Some ''unknown''
       \<and> out ''src_loc'' = Some ''DC1'' \<and> out ''dest_loc'' = Some ''DC1''
       \<and> out ''COMMENTO'' = Some ''SMTP'')"
  by code_simp


theorem end_to_end_scenario_witness:
  "(let r = fst (dict_row [''src_group'', ''dest_group'', ''src_addr'', ''dest_addr'', ''dest_port'',
                           ''src_name'', ''dest_name'']
                          [''Wave4'', ''Wave4'', ''10.0.0.5'', ''10.0.0.9'', ''25'', ''host1'', ''host2'']);
        out = enrich_row_with_comment
                (enrich_row_with_locations
                   (enrich_row_with_services r (build_ip_to_service_index []))
                   (build_subnet_index (\<lambda>address. None) [(''DC1'', [''10.0.0.0/24''])]))
    in should_include_row r ''Wave4'' [] FILTER_COLUMNS CASE_SENSITIVE
       \<and> out ''src_service'' = Some ''unknown'' \<and> out ''dest_service'' = Some ''unknown''
       \<and> out ''src_loc'' = Some ''DC1'' \<and> out ''dest_loc'' = Some ''DC1''
       \<and> out ''COMMENTO'' = Some ''SMTP'')"
  using end_to_end_scenario [of "\<lambda>address. None"] .

section \<open>Properties of the comment rules\<close>

lemma starts_with_iff: "starts_with pat s = (\<exists>post. s = pat @ post)"
  by (induction pat s rule: starts_with.induct) auto

lemma match_here_iff:
  "match_here pat s = (\<exists>post. s = pat @ post \<and> (post = [] \<or> \<not> isdigit (hd post)))"
  by (auto simp: match_here_def starts_with_iff split: list.splits)

lemma search_from_iff:
  "search_from prev pat s =
     (\<exists>pre post. s = pre @ pat @ post
        \<and> (if pre = [] then \<not> prev else \<not> isdigit (last pre))
        \<and> (post = [] \<or> \<not> isdigit (hd post)))"
proof (induction s arbitrary: prev)
  case Nil
  show ?case by (auto simp: match_here_iff)
next
  case (Cons c cs)
  show ?case (is "?L = ?R")
  proof
    assume ?L
    then consider (here) "\<not> prev" "match_here pat (c # cs)" | (later) "search_from (isdigit c) pat cs"
      by auto
    then show ?R
    proof cases
      case here
      then obtain post where "c # cs = pat @ post" "post = [] \<or> \<not> isdigit (hd post)"
        by (auto simp: match_here_iff)
      with here(1) have "c # cs = [] @ pat @ post
          \<and> (if ([]::string) = [] then \<not> prev else \<not> isdigit (last []))
          \<and> (post = [] \<or> \<not> isdigit (hd post))"
        by simp
      then show ?thesis by blast
    next
      case later
      then obtain pre post where p: "cs = pre @ pat @ post"
          "if pre = [] then \<not> isdigit c else \<not> isdigit (last pre)"
          "post = [] \<or> \<not> isdigit (hd post)"
        using Cons.IH [of "isdigit c"] by blast
      have "c # cs = (c # pre) @ pat @ post
          \<and> (if c # pre = [] then \<not> prev else \<not> isdigit (last (c # pre)))
          \<and> (post = [] \<or> \<not> isdigit (hd post))"
        using p by (auto split: if_splits)
      then show ?thesis by blast
    qed
  next
    assume ?R
    then obtain pre post where p: "c # cs = pre @ pat @ post"
        "if pre = [] then \<not> prev else \<not> isdigit (last pre)"
        "post = [] \<or> \<not> isdigit (hd post)"
      by blast
    show ?L
    proof (cases pre)
      case Nil
      with p have "\<not> prev" "match_here pat (c # cs)"
        by (auto simp: match_here_iff)
      then show ?thesis by simp
    next
      case (Cons d pre')
      with p have "cs = pre' @ pat @ post"
          "if pre' = [] then \<not> isdigit c else \<not> isdigit (last pre')"
        by (auto split: if_splits)
      with p(3) have "search_from (isdigit c) pat cs"
        using Cons.IH [of "isdigit c"] by blast
      then show ?thesis by simp
    qed
  qed
qed

lemma port_matches_iff:
  "port_matches n (Some s) =
     (\<exists>pre post. s = pre @ str_of_int n @ post
        \<and> (pre = [] \<or> \<not> isdigit (last pre))
        \<and> (post = [] \<or> \<not> isdigit (hd post)))"
  unfolding port_matches_def Let_def option.case search_from_iff
  by (intro ex_cong1) auto

lemma first_port_comment_first:
  "rules = before @ (port, label) # rest \<Longrightarrow>
   \<forall>(p, l)\<in>set before. \<not> port_matches p v \<Longrightarrow> port_matches port v \<Longrightarrow>
   first_port_comment rules v = label"
  by (induction before arbitrary: rules) auto

lemma first_port_comment_none:
  "\<forall>(p, l)\<in>set rules. \<not> port_matches p v \<Longrightarrow> first_port_comment rules v = []"
  by (induction rules) auto

lemma port_labels_nonempty: "\<forall>(p, l)\<in>set PORT_COMMENTS. l \<noteq> []"
  by (simp add: PORT_COMMENTS_def)

lemma comment_known_service:
  "lower (strip (get_or_empty r ''src_service'')) \<noteq> ''unknown''
     \<or> lower (strip (get_or_empty r ''dest_service'')) \<noteq> ''unknown'' \<Longrightarrow>
   enrich_row_with_comment r ''COMMENTO'' = Some ''skip shared services''"
  by (auto simp: enrich_row_with_comment_def Let_def)

lemma comment_unknown_services:
  "lower (strip (get_or_empty r ''src_service'')) = ''unknown'' \<Longrightarrow>
   lower (strip (get_or_empty r ''dest_service'')) = ''unknown'' \<Longrightarrow>
   enrich_row_with_comment r ''COMMENTO'' =
     (if first_port_comment PORT_COMMENTS (r ''dest_port'') = [] then r ''COMMENTO''
      else Some (first_port_comment PORT_COMMENTS (r ''dest_port'')))"
  by (simp add: enrich_row_with_comment_def Let_def)

lemma port_8080: "first_port_comment PORT_COMMENTS (Some ''8080'') = ''Proxy''"
  by code_simp

lemma port_8125: "\<not> port_matches 25 (Some ''8125'')"
  by code_simp

text \<open>
  C3, as stated, fails: the comparison with \<open>unknown\<close> is made after trimming white space as
  well as lower-casing. A service name that differs from \<open>unknown\<close> only by surrounding
  white space counts as unknown, and the row gets a port comment.
\<close>

theorem comment_precedence_counterexample:
  "lower (get_or_empty [''src_service'' \<mapsto> '' unknown'', ''dest_service'' \<mapsto> ''unknown'',
                        ''dest_port'' \<mapsto> ''25''] ''src_service'') \<noteq> ''unknown''
   \<and> enrich_row_with_comment [''src_service'' \<mapsto> '' unknown'', ''dest_service'' \<mapsto> ''unknown'',
                              ''dest_port'' \<mapsto> ''25''] ''COMMENTO'' = Some ''SMTP''"
  by code_simp

text \<open>
  C3, amended. With both service fields compared after trimming and lower-casing: when
  either differs from \<open>unknown\<close>, \<open>enrich_row_with_comment\<close> sets \<open>COMMENTO\<close> to
  \<open>skip shared services\<close>, whatever the destination port is. When both are \<open>unknown\<close>, the
  first rule of the port table that matches \<open>dest_port\<close> gives the comment, and a row that
  no rule matches keeps its \<open>COMMENTO\<close>; so \<open>dest_port\<close> 8080 gives \<open>Proxy\<close>. A port number
  matches a text exactly when its decimal digits stand in the text with no digit directly
  before or after them, so 25 does not match \<open>8125\<close>.
\<close>

theorem comment_precedence:
  "((lower (strip (get_or_empty r ''src_service'')) \<noteq> ''unknown''
      \<or> lower (strip (get_or_empty r ''dest_service'')) \<noteq> ''unknown'')
     \<longrightarrow> enrich_row_with_comment r ''COMMENTO'' = Some ''skip shared services'')
   \<and> (lower (strip (get_or_empty r ''src_service'')) = ''unknown''
      \<and> lower (strip (get_or_empty r ''dest_service'')) = ''unknown''
     \<longrightarrow> (\<forall>before port label rest.
            PORT_COMMENTS = before @ (port, label) # rest
            \<and> (\<forall>(p, l)\<in>set before. \<not> port_matches p (r ''dest_port''))
            \<and> port_matches port (r ''dest_port'')
            \<longrightarrow> enrich_row_with_comment r ''COMMENTO'' = Some label)
        \<and> ((\<forall>(p, l)\<in>set PORT_COMMENTS. \<not> port_matches p (r ''dest_port''))
            \<longrightarrow> enrich_row_with_comment r ''COMMENTO'' = r ''COMMENTO'')
        \<and> (r ''dest_port'' = Some ''8080''
            \<longrightarrow> enrich_row_with_comment r ''COMMENTO'' = Some ''Proxy''))
   \<and> \<not> port_matches 25 (Some ''8125'')
   \<and> port_matches n (Some s) =
       (\<exists>pre post. s = pre @ str_of_int n @ post
          \<and> (pre = [] \<or> \<not> isdigit (last pre))
          \<and> (post = [] \<or> \<not> isdigit (hd post)))"
proof -
  have known: "(lower (strip (get_or_empty r ''src_service'')) \<noteq> ''unknown''
      \<or> lower (strip (get_or_empty r ''dest_service'')) \<noteq> ''unknown'')
     \<longrightarrow> enrich_row_with_comment r ''COMMENTO'' = Some ''skip shared services''"
    using comment_known_service by blast
  have unknown: "enrich_row_with_comment r ''COMMENTO'' = Some label"
    if u: "lower (strip (get_or_empty r ''src_service'')) = ''unknown''"
          "lower (strip (get_or_empty r ''dest_service'')) = ''unknown''"
      and t: "PORT_COMMENTS = before @ (port, label) # rest"
      and b: "\<forall>(p, l)\<in>set before. \<not> port_matches p (r ''dest_port'')"
      and m: "port_matches port (r ''dest_port'')"
    for before port label rest
  proof -
    have f: "first_port_comment PORT_COMMENTS (r ''dest_port'') = label"
      using first_port_comment_first [OF t b m] .
    have "(port, label) \<in> set PORT_COMMENTS" unfolding t by simp
    then have "label \<noteq> []" using port_labels_nonempty by blast
    then show ?thesis using comment_unknown_services [OF u] f by simp
  qed
  have nomatch: "enrich_row_with_comment r ''COMMENTO'' = r ''COMMENTO''"
    if u: "lower (strip (get_or_empty r ''src_service'')) = ''unknown''"
          "lower (strip (get_or_empty r ''dest_service'')) = ''unknown''"
      and n: "\<forall>(p, l)\<in>set PORT_COMMENTS. \<not> port_matches p (r ''dest_port'')"
    using comment_unknown_services [OF u] first_port_comment_none [OF n] by simp
  have proxy: "enrich_row_with_comment r ''COMMENTO'' = Some ''Proxy''"
    if u: "lower (strip (get_or_empty r ''src_service'')) = ''unknown''"
          "lower (strip (get_or_empty r ''dest_service'')) = ''unknown''"
      and p: "r ''dest_port'' = Some ''8080''"
    using comment_unknown_services [OF u] port_8080 p by simp
  show ?thesis
    using known unknown nomatch proxy port_8125 port_matches_iff [of n s] by blast
qed

theorem comment_precedence_witness:
  "lower (strip (get_or_empty [''src_service'' \<mapsto> ''KMS'', ''dest_service'' \<mapsto> ''unknown'',
                               ''dest_port'' \<mapsto> ''8080''] ''src_service'')) \<noteq> ''unknown''
   \<and> enrich_row_with_comment [''src_service'' \<mapsto> ''KMS'', ''dest_service'' \<mapsto> ''unknown'',
                              ''dest_port'' \<mapsto> ''8080''] ''COMMENTO'' = Some ''skip shared services''
   \<and> lower (strip (get_or_empty [''src_service'' \<mapsto> '' Unknown'', ''dest_service'' \<mapsto> ''unknown'',
                               ''dest_port'' \<mapsto> ''8080''] ''src_service'')) = ''unknown''
   \<and> lower (strip (get_or_empty [''src_service'' \<mapsto> '' Unknown'', ''dest_service'' \<mapsto> ''unknown'',
                               ''dest_port'' \<mapsto> ''8080''] ''dest_service'')) = ''unknown''
   \<and> enrich_row_with_comment [''src_service'' \<mapsto> '' Unknown'', ''dest_service'' \<mapsto> ''unknown'',
                              ''dest_port'' \<mapsto> ''8080''] ''COMMENTO'' = Some ''Proxy''
   \<and> \<not> port_matches 25 (Some ''8125'')
   \<and> port_matches 25 (Some ''80,25'')"
proof -
  let ?k = "[''src_service'' \<mapsto> ''KMS'', ''dest_service'' \<mapsto> ''unknown'', ''dest_port'' \<mapsto> ''8080'']"
  let ?u = "[''src_service'' \<mapsto> '' Unknown'', ''dest_service'' \<mapsto> ''unknown'', ''dest_port'' \<mapsto> ''8080'']"
  have k: "lower (strip (get_or_empty ?k ''src_service'')) \<noteq> ''unknown''" by code_simp
  have u1: "lower (strip (get_or_empty ?u ''src_service'')) = ''unknown''" by code_simp
  have u2: "lower (strip (get_or_empty ?u ''dest_service'')) = ''unknown''" by code_simp
  have d: "?u ''dest_port'' = Some ''8080''" by simp
  have s: "''80,25'' = ''80,'' @ str_of_int 25 @ []" by code_simp
  have l: "\<not> isdigit (last ''80,'')" by code_simp
  have m: "port_matches 25 (Some ''80,25'')"
    using comment_precedence [of ?k 25 "''80,25''"] s l by blast
  show ?thesis
    using comment_precedence [of ?k 25 "''80,25''"] comment_precedence [of ?u 25 "''80,25''"]
      k u1 u2 d m
    by blast
qed

section \<open>Properties of the row filter\<close>

text \<open>
  C4. Self-traffic is always excluded: a row whose source and destination names, trimmed and
  lower-cased, are non-empty and equal is rejected by \<open>should_include_row\<close>, whatever the
  wave filter, the server filter, the filter columns and the case-sensitivity flag are (also
  when no filter is configured).
\<close>

theorem self_traffic_excluded:
  assumes "lower (strip (get_or_empty r ''src_name'')) \<noteq> []"
    and "lower (strip (get_or_empty r ''dest_name'')) \<noteq> []"
    and "lower (strip (get_or_empty r ''src_name'')) = lower (strip (get_or_empty r ''dest_name''))"
  shows "should_include_row r wave_filter server_filter filter_columns case_sensitive = False"
  using assms by (simp add: should_include_row_def Let_def)

theorem self_traffic_excluded_witness:
  "lower (strip (get_or_empty [''src_name'' \<mapsto> '' HostA '', ''dest_name'' \<mapsto> ''hosta''] ''src_name'')) \<noteq> []
   \<and> lower (strip (get_or_empty [''src_name'' \<mapsto> '' HostA '', ''dest_name'' \<mapsto> ''hosta''] ''dest_name'')) \<noteq> []
   \<and> lower (strip (get_or_empty [''src_name'' \<mapsto> '' HostA '', ''dest_name'' \<mapsto> ''hosta''] ''src_name''))
     = lower (strip (get_or_empty [''src_name'' \<mapsto> '' HostA '', ''dest_name'' \<mapsto> ''hosta''] ''dest_name''))
   \<and> should_include_row [''src_name'' \<mapsto> '' HostA '', ''dest_name'' \<mapsto> ''hosta''] [] []
         [''src_group'', ''dest_group''] True = False"
proof -
  let ?r = "[''src_name'' \<mapsto> '' HostA '', ''dest_name'' \<mapsto> ''hosta'']"
  have a: "lower (strip (get_or_empty ?r ''src_name'')) = ''hosta''"
    by code_simp
  have b: "lower (strip (get_or_empty ?r ''dest_name'')) = ''hosta''"
    by code_simp
  show ?thesis
    using self_traffic_excluded [of ?r "[]" "[]" "[''src_group'', ''dest_group'']" True] a b
    by simp
qed

section \<open>Properties of the driver\<close>

lemma progress_values_append [simp]:
  "progress_values (es @ es') = progress_values es @ progress_values es'"
  by (induction es rule: progress_values.induct) auto

lemma milestones_append [simp]: "milestones (es @ es') = milestones es @ milestones es'"
  by (induction es rule: milestones.induct) auto

lemma note_untouched: "is_note eff \<Longrightarrow> \<not> touches p eff"
  by (cases eff rule: is_note.cases) auto

lemma notes_untouched: "list_all is_note es \<Longrightarrow> list_all (\<lambda>eff. \<not> touches p eff) es"
  by (induction es) (auto simp: note_untouched)

lemma notes_no_progress: "list_all is_note es \<Longrightarrow> progress_values es = []"
  by (induction es rule: progress_values.induct) auto

lemma untouched_fold:
  "list_all (\<lambda>eff. \<not> touches p eff) es \<Longrightarrow> fold apply_effect es fs p = fs p"
proof (induction es arbitrary: fs)
  case Nil
  show ?case by simp
next
  case (Cons eff es)
  then have "apply_effect eff fs p = fs p"
    by (cases eff) auto
  with Cons show ?case by simp
qed

lemma tmp_is_not_final: "tmp_path e selected_file \<noteq> final_path e selected_file"
  by (simp add: tmp_path_def final_path_def join_path_def)

lemma and_then_all:
  assumes "list_all P (fst m)" and "\<And>a. snd m = Inr a \<Longrightarrow> list_all P (fst (f a))"
  shows "list_all P (fst (and_then m f))"
proof (cases m)
  case (Pair es r)
  show ?thesis
  proof (cases r)
    case (Inl err)
    with Pair assms(1) show ?thesis by (simp add: and_then_def)
  next
    case (Inr a)
    with Pair assms show ?thesis by (auto simp: and_then_def split: prod.splits)
  qed
qed

lemma for_rows_all:
  assumes "\<And>k r st. list_all P (fst (body k r st))"
  shows "list_all P (fst (for_rows body k rs st))"
proof (induction rs arbitrary: k st)
  case Nil
  show ?case by simp
next
  case (Cons r rs)
  obtain es res where b: "body k r st = (es, res)" by (cases "body k r st")
  have p: "list_all P es" using assms [of k r st] b by simp
  show ?case
  proof (cases res)
    case (Inl err)
    with b p show ?thesis by simp
  next
    case (Inr st')
    obtain es' res' where l: "for_rows body (Suc k) rs st' = (es', res')"
      by (cases "for_rows body (Suc k) rs st'")
    have "list_all P es'" using Cons [of "Suc k" st'] l by simp
    with b p Inr l show ?thesis by simp
  qed
qed

lemma process_row_quiet:
  assumes "p \<noteq> tmp"
  shows "list_all (\<lambda>eff. \<not> touches p eff)
           (fst (process_row e wave_filter server_filter ip_to_service subnet_index fieldnames
                   total_rows tmp k rx st))"
proof -
  have "list_all (\<lambda>eff. \<not> touches p eff) (fst (report_progress e total_rows st'))" for st'
    by (simp add: report_progress_def Let_def)
  then show ?thesis
    using assms by (simp add: process_row_def Let_def split: prod.splits) (metis fst_conv)
qed

lemma transform_quiet:
  assumes "p \<noteq> tmp_path e selected_file"
  shows "list_all (\<lambda>eff. \<not> touches p eff)
           (fst (transform e fs selected_file server_filter wave_filter srv_map loc_map))"
  unfolding transform_def Let_def
  by (intro and_then_all for_rows_all process_row_quiet [OF assms])
     (simp_all add: open_input_def create_temp_def step_at_def assms split: option.splits)

lemma check_columns_names: "check_columns fn server_filter = Inr names \<Longrightarrow> fn = Some names"
  by (auto simp: check_columns_def Let_def split: option.splits if_splits)

lemma transform_cases:
  assumes t: "transform e fs selected_file server_filter wave_filter srv_map loc_map = (tes, res)"
  obtains (stopped) err where "res = Inl err" "progress_values tes = []" "milestones tes = []"
  | (looped) src names les where
      "fs selected_file = Some src" "fieldnames_of src = Some names"
      "tes = [ReadFile selected_file, CreateTemp (tmp_path e selected_file),
              WriteRecord (tmp_path e selected_file) (output_fieldnames names),
              Log (RowsToProcess (length (filter
                (\<lambda>rx. should_include_row (fst rx) wave_filter server_filter FILTER_COLUMNS
                         CASE_SENSITIVE) (dict_rows src))))] @ les"
      "for_rows (process_row e wave_filter server_filter (build_ip_to_service_index srv_map)
                   (build_subnet_index (ipv6_network e) loc_map) (output_fieldnames names)
                   (length (filter
                     (\<lambda>rx. should_include_row (fst rx) wave_filter server_filter FILTER_COLUMNS
                              CASE_SENSITIVE) (dict_rows src)))
                   (tmp_path e selected_file))
         0 (dict_rows src) (initial_state server_filter) = (les, res)"
proof (cases "io_fails e AtOpenInput \<or> fs selected_file = None")
  case True
  then have "transform e fs selected_file server_filter wave_filter srv_map loc_map
               = ([], Inl (OSError selected_file))"
    by (auto simp: transform_def Let_def and_then_def open_input_def)
  with t stopped show ?thesis by auto
next
  case False
  then obtain src where src: "fs selected_file = Some src" "\<not> io_fails e AtOpenInput"
    by auto
  show ?thesis
  proof (cases "io_fails e AtCreateTemp \<or> fs (tmp_path e selected_file) \<noteq> None")
    case True
    then have "transform e fs selected_file server_filter wave_filter srv_map loc_map
                 = ([ReadFile selected_file], Inl (OSError (tmp_path e selected_file)))"
      using src by (auto simp: transform_def Let_def and_then_def open_input_def create_temp_def)
    with t stopped show ?thesis by auto
  next
    case False
    note tmp = this
    show ?thesis
    proof (cases "check_columns (fieldnames_of src) server_filter")
      case (Inl err)
      then have "transform e fs selected_file server_filter wave_filter srv_map loc_map
                   = ([ReadFile selected_file, CreateTemp (tmp_path e selected_file)], Inl err)"
        using src tmp
        by (auto simp: transform_def Let_def and_then_def open_input_def create_temp_def)
      with t stopped show ?thesis by auto
    next
      case (Inr names)
      note names = this
      show ?thesis
      proof (cases "io_fails e AtWriteHeader")
        case True
        then have "transform e fs selected_file server_filter wave_filter srv_map loc_map
                     = ([ReadFile selected_file, CreateTemp (tmp_path e selected_file)],
                        Inl (OSError (tmp_path e selected_file)))"
          using src tmp names
          by (auto simp: transform_def Let_def and_then_def open_input_def create_temp_def
                step_at_def)
        with t stopped show ?thesis by auto
      next
        case False
        note header = this
        show ?thesis
        proof (cases "io_fails e AtCountPass")
          case True
          then have "transform e fs selected_file server_filter wave_filter srv_map loc_map
                       = ([ReadFile selected_file, CreateTemp (tmp_path e selected_file),
                           WriteRecord (tmp_path e selected_file) (output_fieldnames names)],
                          Inl (OSError selected_file))"
            using src tmp names header
            by (auto simp: transform_def Let_def and_then_def open_input_def create_temp_def
                  step_at_def)
          with t stopped show ?thesis by auto
        next
          case False
          obtain les lres where l:
            "for_rows (process_row e wave_filter server_filter (build_ip_to_service_index srv_map)
                   (build_subnet_index (ipv6_network e) loc_map) (output_fieldnames names)
                   (length (filter
                     (\<lambda>rx. should_include_row (fst rx) wave_filter server_filter FILTER_COLUMNS
                              CASE_SENSITIVE) (dict_rows src)))
                   (tmp_path e selected_file))
               0 (dict_rows src) (initial_state server_filter) = (les, lres)"
            by (cases "for_rows (process_row e wave_filter server_filter
                   (build_ip_to_service_index srv_map)
                   (build_subnet_index (ipv6_network e) loc_map) (output_fieldnames names)
                   (length (filter
                     (\<lambda>rx. should_include_row (fst rx) wave_filter server_filter FILTER_COLUMNS
                              CASE_SENSITIVE) (dict_rows src)))
                   (tmp_path e selected_file))
               0 (dict_rows src) (initial_state server_filter)")
          have "transform e fs selected_file server_filter wave_filter srv_map loc_map
                  = ([ReadFile selected_file, CreateTemp (tmp_path e selected_file),
                      WriteRecord (tmp_path e selected_file) (output_fieldnames names),
                      Log (RowsToProcess (length (filter
                        (\<lambda>rx. should_include_row (fst rx) wave_filter server_filter FILTER_COLUMNS
                                 CASE_SENSITIVE) (dict_rows src))))] @ les, lres)"
            using src tmp names header False l
            by (auto simp: transform_def Let_def and_then_def open_input_def create_temp_def
                  step_at_def)
          with t l have "tes = [ReadFile selected_file, CreateTemp (tmp_path e selected_file),
                      WriteRecord (tmp_path e selected_file) (output_fieldnames names),
                      Log (RowsToProcess (length (filter
                        (\<lambda>rx. should_include_row (fst rx) wave_filter server_filter FILTER_COLUMNS
                                 CASE_SENSITIVE) (dict_rows src))))] @ les" "lres = res"
            by simp_all
          with l src(1) check_columns_names [OF names] looped show ?thesis by blast
        qed
      qed
    qed
  qed
qed

lemma summary_notes: "list_all is_note (summary server_filter st)"
  by (auto simp: summary_def list_all_iff)

lemma summary_logs: "list_all (\<lambda>eff. \<not> is_file_step eff) (summary server_filter st)"
  by (auto simp: summary_def list_all_iff)

lemma run_cases:
  assumes r: "run_user_python_code e fs selected_file selected_excel server_filter wave_filter
                = (es, res)"
  obtains (early) err where "res = Inl err" "list_all is_note es"
  | (transform_failed) srv_map loc_map pre tes err where
      "loaded e = Inr (srv_map, loc_map)"
      "transform e fs selected_file server_filter wave_filter srv_map loc_map = (tes, Inl err)"
      "es = pre @ tes" "res = Inl err" "list_all is_note pre"
  | (rename_failed) srv_map loc_map pre tes st err where
      "loaded e = Inr (srv_map, loc_map)"
      "transform e fs selected_file server_filter wave_filter srv_map loc_map = (tes, Inr st)"
      "es = pre @ tes @ [Progress 100]" "res = Inl err" "list_all is_note pre"
  | (finished) srv_map loc_map pre tes st post where
      "loaded e = Inr (srv_map, loc_map)"
      "transform e fs selected_file server_filter wave_filter srv_map loc_map = (tes, Inr st)"
      "es = pre @ tes @ [Progress 100,
                         Replace (tmp_path e selected_file) (final_path e selected_file)] @ post"
      "res = Inr ()" "list_all is_note pre" "list_all is_note post"
      "list_all (\<lambda>eff. \<not> is_file_step eff) post"
proof (cases "selected_file = [] \<or> selected_excel = []")
  case True
  then have "\<exists>err. run_user_python_code e fs selected_file selected_excel server_filter wave_filter
               = ([], Inl err)"
    by (auto simp: run_user_python_code_def)
  with r early show ?thesis by auto
next
  case False
  note config = this
  show ?thesis
  proof (cases "loaded e")
    case (Inl err)
    then have "run_user_python_code e fs selected_file selected_excel server_filter wave_filter
                 = ([Log (LoadingMappings selected_excel)], Inl err)"
      using config by (simp add: run_user_python_code_def and_then_def)
    with r early show ?thesis by auto
  next
    case (Inr maps)
    obtain srv_map loc_map where maps: "loaded e = Inr (srv_map, loc_map)"
      using Inr by (cases maps) auto
    show ?thesis
    proof (cases "io_fails e AtCountLines \<or> fs selected_file = None")
      case True
      then have "run_user_python_code e fs selected_file selected_excel server_filter wave_filter
                   = ([Log (LoadingMappings selected_excel), Log (ServicesLoaded (length srv_map)),
                       Log (LocationsLoaded (length loc_map))], Inl (OSError selected_file))"
        using config maps by (auto simp: run_user_python_code_def and_then_def open_input_def)
      with r early show ?thesis by auto
    next
      case False
      then obtain src where src: "fs selected_file = Some src" "\<not> io_fails e AtCountLines"
        by auto
      define pre where "pre = [Log (LoadingMappings selected_excel),
          Log (ServicesLoaded (length srv_map)), Log (LocationsLoaded (length loc_map)),
          ReadFile selected_file, Log (FoundRows (line_count e - 1))] @
          (if server_filter \<noteq> [] then [Log (FilteringServers server_filter)] else []) @
          (if wave_filter \<noteq> [] then [Log (FilteringWave wave_filter)] else []) @
          [Log CountingRows]"
      have pre: "list_all is_note pre" by (simp add: pre_def)
      obtain tes tres where t:
        "transform e fs selected_file server_filter wave_filter srv_map loc_map = (tes, tres)"
        by (cases "transform e fs selected_file server_filter wave_filter srv_map loc_map")
      show ?thesis
      proof (cases tres)
        case (Inl err)
        then have "run_user_python_code e fs selected_file selected_excel server_filter wave_filter
                     = (pre @ tes, Inl err)"
          using config maps src t
          by (simp add: run_user_python_code_def and_then_def open_input_def pre_def)
        with r t Inl pre maps transform_failed show ?thesis by auto
      next
        case (Inr st)
        show ?thesis
        proof (cases "io_fails e AtReplace")
          case True
          then have "run_user_python_code e fs selected_file selected_excel server_filter
                       wave_filter
                       = (pre @ tes @ [Progress 100], Inl (OSError (final_path e selected_file)))"
            using config maps src t Inr
            by (simp add: run_user_python_code_def and_then_def open_input_def step_at_def pre_def)
          with r t Inr pre maps rename_failed show ?thesis by auto
        next
          case False
          then have "run_user_python_code e fs selected_file selected_excel server_filter
                       wave_filter
                       = (pre @ tes @ [Progress 100,
                            Replace (tmp_path e selected_file) (final_path e selected_file)] @
                          ([Log (Processed (basename selected_file)),
                            Log (Generated (basename (final_path e selected_file)))] @
                           summary server_filter st), Inr ())"
            using config maps src t Inr
            by (simp add: run_user_python_code_def and_then_def open_input_def step_at_def pre_def)
          moreover have "list_all is_note ([Log (Processed (basename selected_file)),
                            Log (Generated (basename (final_path e selected_file)))] @
                           summary server_filter st)"
            using summary_notes by simp
          moreover have "list_all (\<lambda>eff. \<not> is_file_step eff)
                           ([Log (Processed (basename selected_file)),
                            Log (Generated (basename (final_path e selected_file)))] @
                           summary server_filter st)"
            using summary_logs by simp
          ultimately show ?thesis
            using r t Inr pre maps finished by auto
        qed
      qed
    qed
  qed
qed

lemma run_finished:
  assumes "selected_file \<noteq> []" "selected_excel \<noteq> []" "loaded e = Inr (srv_map, loc_map)"
    and "\<not> io_fails e AtCountLines" "fs selected_file = Some src"
    and "transform e fs selected_file server_filter wave_filter srv_map loc_map = (tes, Inr st)"
    and "\<not> io_fails e AtReplace"
  shows "run_user_python_code e fs selected_file selected_excel server_filter wave_filter
     = ([Log (LoadingMappings selected_excel),
         Log (ServicesLoaded (length srv_map)), Log (LocationsLoaded (length loc_map)),
         ReadFile selected_file, Log (FoundRows (line_count e - 1))] @
        (if server_filter \<noteq> [] then [Log (FilteringServers server_filter)] else []) @
        (if wave_filter \<noteq> [] then [Log (FilteringWave wave_filter)] else []) @
        [Log CountingRows] @ tes @
        [Progress 100, Replace (tmp_path e selected_file) (final_path e selected_file),
         Log (Processed (basename selected_file)),
         Log (Generated (basename (final_path e selected_file)))] @
        summary server_filter st, Inr ())"
  using assms
  by (simp add: run_user_python_code_def and_then_def open_input_def step_at_def)

lemma run_transform_failed:
  assumes "selected_file \<noteq> []" "selected_excel \<noteq> []" "loaded e = Inr (srv_map, loc_map)"
    and "\<not> io_fails e AtCountLines" "fs selected_file = Some src"
    and "transform e fs selected_file server_filter wave_filter srv_map loc_map = (tes, Inl err)"
  shows "run_user_python_code e fs selected_file selected_excel server_filter wave_filter
     = ([Log (LoadingMappings selected_excel),
         Log (ServicesLoaded (length srv_map)), Log (LocationsLoaded (length loc_map)),
         ReadFile selected_file, Log (FoundRows (line_count e - 1))] @
        (if server_filter \<noteq> [] then [Log (FilteringServers server_filter)] else []) @
        (if wave_filter \<noteq> [] then [Log (FilteringWave wave_filter)] else []) @
        [Log CountingRows] @ tes, Inl err)"
  using assms
  by (simp add: run_user_python_code_def and_then_def open_input_def)

lemma transform_schema_error:
  assumes "\<not> io_fails e AtOpenInput" "fs selected_file = Some src"
    and "\<not> io_fails e AtCreateTemp" "fs (tmp_path e selected_file) = None"
    and "check_columns (fieldnames_of src) server_filter = Inl err"
  shows "transform e fs selected_file server_filter wave_filter srv_map loc_map
     = ([ReadFile selected_file, CreateTemp (tmp_path e selected_file)], Inl err)"
  using assms
  by (simp add: transform_def Let_def and_then_def open_input_def create_temp_def)

lemma scenario_transform_effects:
  "fst (transform scenario_env scenario_files ''data/in.csv'' [] ''Wave4''
          [] [(''DC1'', [''10.0.0.0/24''])])
   = [ReadFile ''data/in.csv'', CreateTemp ''data/tmpabcd1234'',
      WriteRecord ''data/tmpabcd1234''
        [''src_group'', ''dest_group'', ''src_addr'', ''dest_addr'', ''dest_port'', ''src_name'',
         ''dest_name'', ''src_service'', ''dest_service'', ''src_loc'', ''dest_loc'', ''COMMENTO''],
      Log (RowsToProcess 1),
      WriteRecord ''data/tmpabcd1234''
        [''Wave4'', ''Wave4'', ''10.0.0.5'', ''10.0.0.9'', ''25'', ''host1'', ''host2'',
         ''unknown'', ''unknown'', ''DC1'', ''DC1'', ''SMTP''],
      Log (Step 0), Progress 100, Log (RowCount 1 1 100)]"
  by code_simp

lemma scenario_transform_ok:
  "case snd (transform scenario_env scenario_files ''data/in.csv'' [] ''Wave4''
          [] [(''DC1'', [''10.0.0.0/24''])]) of Inl err \<Rightarrow> False | Inr st \<Rightarrow> True"
  by code_simp

lemma scenario_paths:
  "tmp_path scenario_env ''data/in.csv'' = ''data/tmpabcd1234''"
  "final_path scenario_env ''data/in.csv'' = ''data/nutella_2025-01-01_00-00-00.csv''"
  "basename ''data/in.csv'' = ''in.csv''"
  "basename ''data/nutella_2025-01-01_00-00-00.csv'' = ''nutella_2025-01-01_00-00-00.csv''"
  by code_simp+

lemma scenario_run:
  "run_user_python_code scenario_env scenario_files ''data/in.csv'' ''map.xlsx'' [] ''Wave4''
   = ([Log (LoadingMappings ''map.xlsx''), Log (ServicesLoaded 0), Log (LocationsLoaded 1),
       ReadFile ''data/in.csv'', Log (FoundRows 1), Log (FilteringWave ''Wave4''),
       Log CountingRows,
       ReadFile ''data/in.csv'', CreateTemp ''data/tmpabcd1234'',
       WriteRecord ''data/tmpabcd1234''
        [''src_group'', ''dest_group'', ''src_addr'', ''dest_addr'', ''dest_port'', ''src_name'',
         ''dest_name'', ''src_service'', ''dest_service'', ''src_loc'', ''dest_loc'', ''COMMENTO''],
       Log (RowsToProcess 1),
       WriteRecord ''data/tmpabcd1234''
        [''Wave4'', ''Wave4'', ''10.0.0.5'', ''10.0.0.9'', ''25'', ''host1'', ''host2'',
         ''unknown'', ''unknown'', ''DC1'', ''DC1'', ''SMTP''],
       Log (Step 0), Progress 100, Log (RowCount 1 1 100),
       Progress 100,
       Replace ''data/tmpabcd1234'' ''data/nutella_2025-01-01_00-00-00.csv'',
       Log (Processed ''in.csv''), Log (Generated ''nutella_2025-01-01_00-00-00.csv'')],
      Inr ())"
proof -
  obtain tes tres where t:
    "transform scenario_env scenario_files ''data/in.csv'' [] ''Wave4''
       [] [(''DC1'', [''10.0.0.0/24''])] = (tes, tres)"
    by (cases "transform scenario_env scenario_files ''data/in.csv'' [] ''Wave4''
       [] [(''DC1'', [''10.0.0.0/24''])]")
  with scenario_transform_ok obtain st where st: "tres = Inr st"
    by (cases tres) auto
  have l: "loaded scenario_env = Inr ([], [(''DC1'', [''10.0.0.0/24''])])"
    by (simp add: scenario_env_def)
  have f: "\<not> io_fails scenario_env AtCountLines" "\<not> io_fails scenario_env AtReplace"
    "line_count scenario_env = 2"
    by (simp_all add: scenario_env_def)
  have s: "scenario_files ''data/in.csv'' =
     Some [[''src_group'', ''dest_group'', ''src_addr'', ''dest_addr'', ''dest_port'', ''src_name'',
          ''dest_name''],
         [''Wave4'', ''Wave4'', ''10.0.0.5'', ''10.0.0.9'', ''25'', ''host1'', ''host2'']]"
    by (simp add: scenario_files_def)
  have tes: "tes = fst (transform scenario_env scenario_files ''data/in.csv'' [] ''Wave4''
          [] [(''DC1'', [''10.0.0.0/24''])])"
    using t by simp
  show ?thesis
    using run_finished [OF _ _ l f(1) s t [unfolded st] f(2), of "''map.xlsx''"]
    by (simp add: tes scenario_transform_effects scenario_paths f(3) summary_def)
qed

text \<open>
  C5. Atomic publication: a run that ends with an exception has no effect on the destination
  path, which holds after the run what it held before (nothing, or an older file); a run that
  succeeds renames the temporary file onto the destination path, touches the destination
  path in no step before that, and makes no step on the file system after it.
\<close>

theorem atomic_publication:
  assumes "run_user_python_code e fs selected_file selected_excel server_filter wave_filter
             = (es, res)"
  shows "(\<forall>err. res = Inl err \<longrightarrow>
            (\<forall>eff\<in>set es. \<not> touches (final_path e selected_file) eff)
            \<and> fold apply_effect es fs (final_path e selected_file)
                = fs (final_path e selected_file))
       \<and> (res = Inr () \<longrightarrow>
            (\<exists>before after.
               es = before @ Replace (tmp_path e selected_file) (final_path e selected_file) # after
               \<and> (\<forall>eff\<in>set before. \<not> touches (final_path e selected_file) eff)
               \<and> (\<forall>eff\<in>set after. \<not> is_file_step eff)))"
proof -
  let ?final = "final_path e selected_file"
  have ne: "?final \<noteq> tmp_path e selected_file"
    using tmp_is_not_final [of e selected_file] by simp
  have quiet: "list_all (\<lambda>eff. \<not> touches ?final eff) tes"
    if "transform e fs selected_file server_filter wave_filter srv_map loc_map = (tes, tres)"
    for srv_map loc_map tes tres
    using transform_quiet [OF ne, of fs server_filter wave_filter srv_map loc_map] that by simp
  from assms show ?thesis
  proof (cases rule: run_cases)
    case (early err)
    then have "list_all (\<lambda>eff. \<not> touches ?final eff) es"
      using notes_untouched by blast
    with early(1) show ?thesis
      using untouched_fold [of ?final es fs] by (simp add: list_all_iff)
  next
    case (transform_failed srv_map loc_map pre tes err)
    then have "list_all (\<lambda>eff. \<not> touches ?final eff) es"
      using notes_untouched [of pre ?final] quiet by simp
    with transform_failed(4) show ?thesis
      using untouched_fold [of ?final es fs] by (simp add: list_all_iff)
  next
    case (rename_failed srv_map loc_map pre tes st err)
    then have "list_all (\<lambda>eff. \<not> touches ?final eff) es"
      using notes_untouched [of pre ?final] quiet by simp
    with rename_failed(4) show ?thesis
      using untouched_fold [of ?final es fs] by (simp add: list_all_iff)
  next
    case (finished srv_map loc_map pre tes st post)
    have b: "list_all (\<lambda>eff. \<not> touches ?final eff) (pre @ tes @ [Progress 100])"
      using notes_untouched [of pre ?final] quiet finished(2,5) by simp
    have "es = (pre @ tes @ [Progress 100])
                 @ Replace (tmp_path e selected_file) ?final # post"
      using finished(3) by simp
    with b finished(4,7) show ?thesis
      unfolding list_all_iff by blast
  qed
qed

lemma percent_mono: "a \<le> b \<Longrightarrow> percent a t \<le> percent b t"
  by (simp add: percent_def div_le_mono)

lemma percent_le_100: "n \<le> t \<Longrightarrow> percent n t \<le> 100"
proof (cases "t = 0")
  case True
  then show ?thesis by (simp add: percent_def)
next
  case False
  assume "n \<le> t"
  then have "n * 100 div t \<le> t * 100 div t"
    by (intro div_le_mono) simp
  with False show ?thesis by (simp add: percent_def)
qed

lemma count_directions_processed [simp]:
  "processed (count_directions server_filter r st) = processed st"
proof -
  have "processed (fold (\<lambda>srv st.
                 let srv_lower = lower srv;
                     st = (if str_in srv_lower a
                           then st\<lparr>outbound_count := bump (outbound_count st) srv\<rparr> else st)
                 in if str_in srv_lower b
                    then st\<lparr>inbound_count := bump (inbound_count st) srv\<rparr> else st)
              server_filter st) = processed st" for a b
    by (induction server_filter arbitrary: st) (simp_all add: Let_def)
  then show ?thesis by (simp add: count_directions_def Let_def)
qed

lemma report_progress_values:
  "report_progress e t st = (es, st') \<Longrightarrow>
     processed st' = processed st + 1
     \<and> (progress_values es = [] \<or> progress_values es = [percent (processed st + 1) t])"
  by (auto simp: report_progress_def Let_def split: if_splits)

lemma process_row_progress:
  assumes "process_row e wave_filter server_filter ip_to_service subnet_index fieldnames t tmp
             k rx st = (es, res)"
  shows "(progress_values es = []
            \<or> (progress_values es = [percent (processed st + 1) t]
               \<and> should_include_row (fst rx) wave_filter server_filter FILTER_COLUMNS
                    CASE_SENSITIVE))
       \<and> (\<forall>st'. res = Inr st' \<longrightarrow>
             processed st' = processed st +
               (if should_include_row (fst rx) wave_filter server_filter FILTER_COLUMNS
                     CASE_SENSITIVE then 1 else 0))"
proof (cases "io_fails e (AtRow k)
    \<or> \<not> should_include_row (fst rx) wave_filter server_filter FILTER_COLUMNS CASE_SENSITIVE
    \<or> snd rx")
  case True
  with assms show ?thesis
    by (auto simp: process_row_def Let_def split: if_splits)
next
  case False
  obtain res_es st' where rp:
    "report_progress e t (count_directions server_filter (fst rx) st) = (res_es, st')"
    by (cases "report_progress e t (count_directions server_filter (fst rx) st)")
  from report_progress_values [OF rp]
  have v: "processed st' = processed st + 1"
    "progress_values res_es = [] \<or> progress_values res_es = [percent (processed st + 1) t]"
    by simp_all
  from assms False rp have "es = WriteRecord tmp
      (map (get_or_empty (enrich_row_with_comment (enrich_row_with_locations
         (enrich_row_with_services (fst rx) ip_to_service) subnet_index))) fieldnames) # res_es"
    "res = Inr st'"
    by (auto simp: process_row_def Let_def)
  with v False show ?thesis by auto
qed

lemma loop_progress:
  assumes "for_rows (process_row e wave_filter server_filter ip_to_service subnet_index
                       fieldnames t tmp) k rs st = (es, res)"
    and "processed st + length (filter
           (\<lambda>rx. should_include_row (fst rx) wave_filter server_filter FILTER_COLUMNS
                    CASE_SENSITIVE) rs) \<le> t"
  shows "sorted (progress_values es)
       \<and> (\<forall>v\<in>set (progress_values es). percent (processed st + 1) t \<le> v \<and> v \<le> 100)"
  using assms
proof (induction rs arbitrary: k st es res)
  case Nil
  then show ?case by simp
next
  case (Cons rx rs)
  let ?pass = "should_include_row (fst rx) wave_filter server_filter FILTER_COLUMNS CASE_SENSITIVE"
  obtain es1 r1 where b:
    "process_row e wave_filter server_filter ip_to_service subnet_index fieldnames t tmp
       k rx st = (es1, r1)"
    by (cases "process_row e wave_filter server_filter ip_to_service subnet_index fieldnames t tmp
       k rx st")
  from process_row_progress [OF b]
  have v1: "progress_values es1 = []
            \<or> (progress_values es1 = [percent (processed st + 1) t] \<and> ?pass)"
    and p1: "\<forall>st'. r1 = Inr st' \<longrightarrow> processed st' = processed st + (if ?pass then 1 else 0)"
    by blast+
  have bound: "percent (processed st + 1) t \<le> 100" if "?pass"
    using that Cons.prems(2) by (intro percent_le_100) simp
  show ?case
  proof (cases r1)
    case (Inl err)
    with Cons.prems(1) b have "es = es1" by simp
    with v1 bound show ?thesis by auto
  next
    case (Inr st')
    obtain es2 r2 where l:
      "for_rows (process_row e wave_filter server_filter ip_to_service subnet_index
                   fieldnames t tmp) (Suc k) rs st' = (es2, r2)"
      by (cases "for_rows (process_row e wave_filter server_filter ip_to_service subnet_index
                   fieldnames t tmp) (Suc k) rs st'")
    have st': "processed st' = processed st + (if ?pass then 1 else 0)"
      using p1 Inr by blast
    then have inv: "processed st' + length (filter
           (\<lambda>rx. should_include_row (fst rx) wave_filter server_filter FILTER_COLUMNS
                    CASE_SENSITIVE) rs) \<le> t"
      using Cons.prems(2) by (simp split: if_splits)
    from Cons.IH [OF l inv]
    have s2: "sorted (progress_values es2)"
      and v2: "\<forall>v\<in>set (progress_values es2). percent (processed st' + 1) t \<le> v \<and> v \<le> 100"
      by simp_all
    have es: "es = es1 @ es2"
      using Cons.prems(1) b Inr l by simp
    have low: "percent (processed st + 1) t \<le> percent (processed st' + 1) t"
      using st' by (intro percent_mono) simp
    have v2': "\<forall>v\<in>set (progress_values es2). percent (processed st + 1) t \<le> v \<and> v \<le> 100"
    proof
      fix v
      assume "v \<in> set (progress_values es2)"
      with v2 have "percent (processed st' + 1) t \<le> v" "v \<le> 100" by simp_all
      with low show "percent (processed st + 1) t \<le> v \<and> v \<le> 100" by simp
    qed
    show ?thesis
    proof (cases "progress_values es1 = []")
      case True
      with es s2 v2' show ?thesis by simp
    next
      case False
      with v1 have e1: "progress_values es1 = [percent (processed st + 1) t]" and pass: ?pass
        by auto
      with es s2 v2' bound [OF pass] show ?thesis by simp
    qed
  qed
qed

lemma transform_progress:
  assumes "transform e fs selected_file server_filter wave_filter srv_map loc_map = (tes, res)"
  shows "sorted (progress_values tes) \<and> (\<forall>v\<in>set (progress_values tes). v \<le> 100)"
  using assms
proof (cases rule: transform_cases)
  case (stopped err)
  then show ?thesis by simp
next
  case (looped src names les)
  have "processed (initial_state server_filter) + length (filter
           (\<lambda>rx. should_include_row (fst rx) wave_filter server_filter FILTER_COLUMNS
                    CASE_SENSITIVE) (dict_rows src))
        \<le> length (filter
           (\<lambda>rx. should_include_row (fst rx) wave_filter server_filter FILTER_COLUMNS
                    CASE_SENSITIVE) (dict_rows src))"
    by (simp add: initial_state_def)
  from loop_progress [OF looped(4) this] looped(3) show ?thesis by simp
qed

text \<open>
  C6. Progress callback: in one run (which reads the same input in both passes), every value
  given to the progress callback is at most 100 (and, being a natural number, at least 0),
  and the values are given in non-decreasing order, the 100 of the end included. The clock
  that throttles the updates is arbitrary.
\<close>

theorem progress_invariant:
  assumes "run_user_python_code e fs selected_file selected_excel server_filter wave_filter
             = (es, res)"
  shows "(\<forall>v\<in>set (progress_values es). v \<le> 100) \<and> sorted (progress_values es)"
  using assms
proof (cases rule: run_cases)
  case (early err)
  then show ?thesis by (simp add: notes_no_progress)
next
  case (transform_failed srv_map loc_map pre tes err)
  with transform_progress [OF transform_failed(2)] show ?thesis
    by (simp add: notes_no_progress)
next
  case (rename_failed srv_map loc_map pre tes st err)
  with transform_progress [OF rename_failed(2)] show ?thesis
    by (simp add: notes_no_progress sorted_append)
next
  case (finished srv_map loc_map pre tes st post)
  with transform_progress [OF finished(2)] show ?thesis
    by (simp add: notes_no_progress sorted_append)
qed

lemma scenario_failing_run:
  "run_user_python_code (scenario_env\<lparr>io_fails := \<lambda>site. site = AtRow 0\<rparr>) scenario_files
     ''data/in.csv'' ''map.xlsx'' [] ''Wave4''
   = ([Log (LoadingMappings ''map.xlsx''), Log (ServicesLoaded 0), Log (LocationsLoaded 1),
       ReadFile ''data/in.csv'', Log (FoundRows 1), Log (FilteringWave ''Wave4''),
       Log CountingRows,
       ReadFile ''data/in.csv'', CreateTemp ''data/tmpabcd1234'',
       WriteRecord ''data/tmpabcd1234''
        [''src_group'', ''dest_group'', ''src_addr'', ''dest_addr'', ''dest_port'', ''src_name'',
         ''dest_name'', ''src_service'', ''dest_service'', ''src_loc'', ''dest_loc'', ''COMMENTO''],
       Log (RowsToProcess 1)],
      Inl (OSError ''data/tmpabcd1234''))"
proof -
  let ?e = "scenario_env\<lparr>io_fails := \<lambda>site. site = AtRow 0\<rparr>"
  have t1: "fst (transform ?e scenario_files ''data/in.csv'' [] ''Wave4'' []
                   [(''DC1'', [''10.0.0.0/24''])])
    = [ReadFile ''data/in.csv'', CreateTemp ''data/tmpabcd1234'',
       WriteRecord ''data/tmpabcd1234''
         [''src_group'', ''dest_group'', ''src_addr'', ''dest_addr'', ''dest_port'', ''src_name'',
          ''dest_name'', ''src_service'', ''dest_service'', ''src_loc'', ''dest_loc'', ''COMMENTO''],
       Log (RowsToProcess 1)]"
    by code_simp
  have t2: "case snd (transform ?e scenario_files ''data/in.csv'' [] ''Wave4'' []
                        [(''DC1'', [''10.0.0.0/24''])]) of
              Inl err \<Rightarrow> err = OSError ''data/tmpabcd1234'' | Inr st \<Rightarrow> False"
    by code_simp
  have t: "transform ?e scenario_files ''data/in.csv'' [] ''Wave4'' [] [(''DC1'', [''10.0.0.0/24''])]
    = ([ReadFile ''data/in.csv'', CreateTemp ''data/tmpabcd1234'',
        WriteRecord ''data/tmpabcd1234''
         [''src_group'', ''dest_group'', ''src_addr'', ''dest_addr'', ''dest_port'', ''src_name'',
          ''dest_name'', ''src_service'', ''dest_service'', ''src_loc'', ''dest_loc'', ''COMMENTO''],
        Log (RowsToProcess 1)], Inl (OSError ''data/tmpabcd1234''))"
    using t1 t2
    by (cases "transform ?e scenario_files ''data/in.csv'' [] ''Wave4'' []
                 [(''DC1'', [''10.0.0.0/24''])]")
       (auto split: sum.splits)
  have l: "loaded ?e = Inr ([], [(''DC1'', [''10.0.0.0/24''])])"
    by (simp add: scenario_env_def)
  have f: "\<not> io_fails ?e AtCountLines" "line_count ?e = 2"
    by (simp_all add: scenario_env_def)
  have s: "scenario_files ''data/in.csv'' =
     Some [[''src_group'', ''dest_group'', ''src_addr'', ''dest_addr'', ''dest_port'', ''src_name'',
          ''dest_name''],
         [''Wave4'', ''Wave4'', ''10.0.0.5'', ''10.0.0.9'', ''25'', ''host1'', ''host2'']]"
    by (simp add: scenario_files_def)
  show ?thesis
    using run_transform_failed [OF _ _ l f(1) s t, of "''map.xlsx''"]
    by (simp add: f(2))
qed

lemma scenario_failing_final:
  "final_path (scenario_env\<lparr>io_fails := \<lambda>site. site = AtRow 0\<rparr>) ''data/in.csv''
     = ''data/nutella_2025-01-01_00-00-00.csv''"
  by code_simp

theorem atomic_publication_witness:
  "snd (run_user_python_code (scenario_env\<lparr>io_fails := \<lambda>site. site = AtRow 0\<rparr>) scenario_files
          ''data/in.csv'' ''map.xlsx'' [] ''Wave4'') = Inl (OSError ''data/tmpabcd1234'')
   \<and> list_all (\<lambda>eff. \<not> touches ''data/nutella_2025-01-01_00-00-00.csv'' eff)
        (fst (run_user_python_code (scenario_env\<lparr>io_fails := \<lambda>site. site = AtRow 0\<rparr>)
                scenario_files ''data/in.csv'' ''map.xlsx'' [] ''Wave4''))
   \<and> fold apply_effect
        (fst (run_user_python_code (scenario_env\<lparr>io_fails := \<lambda>site. site = AtRow 0\<rparr>)
                scenario_files ''data/in.csv'' ''map.xlsx'' [] ''Wave4''))
        scenario_files ''data/nutella_2025-01-01_00-00-00.csv'' = None
   \<and> snd (run_user_python_code scenario_env scenario_files ''data/in.csv'' ''map.xlsx'' []
            ''Wave4'') = Inr ()
   \<and> (\<exists>before after.
         fst (run_user_python_code scenario_env scenario_files ''data/in.csv'' ''map.xlsx'' []
                ''Wave4'')
           = before @ Replace ''data/tmpabcd1234'' ''data/nutella_2025-01-01_00-00-00.csv'' # after
         \<and> (\<forall>eff\<in>set before. \<not> touches ''data/nutella_2025-01-01_00-00-00.csv'' eff)
         \<and> (\<forall>eff\<in>set after. \<not> is_file_step eff))"
proof -
  have n: "scenario_files ''data/nutella_2025-01-01_00-00-00.csv'' = None"
    by (simp add: scenario_files_def)
  have a: "snd (run_user_python_code (scenario_env\<lparr>io_fails := \<lambda>site. site = AtRow 0\<rparr>)
             scenario_files ''data/in.csv'' ''map.xlsx'' [] ''Wave4'')
           = Inl (OSError ''data/tmpabcd1234'')"
    by (simp add: scenario_failing_run)
  have b: "snd (run_user_python_code scenario_env scenario_files ''data/in.csv'' ''map.xlsx'' []
             ''Wave4'') = Inr ()"
    by (simp add: scenario_run)
  from atomic_publication [OF surjective_pairing, of "scenario_env\<lparr>io_fails := \<lambda>site. site = AtRow 0\<rparr>"
      scenario_files "''data/in.csv''" "''map.xlsx''" "[]" "''Wave4''"]
    atomic_publication [OF surjective_pairing, of scenario_env
      scenario_files "''data/in.csv''" "''map.xlsx''" "[]" "''Wave4''"]
  show ?thesis
    unfolding a b scenario_failing_final scenario_paths n list_all_iff by simp
qed

theorem progress_invariant_witness:
  "progress_values (fst (run_user_python_code scenario_env scenario_files ''data/in.csv''
                           ''map.xlsx'' [] ''Wave4'')) = [100, 100]
   \<and> list_all (\<lambda>v. v \<le> 100)
        (progress_values (fst (run_user_python_code scenario_env scenario_files
                                 ''data/in.csv'' ''map.xlsx'' [] ''Wave4'')))
   \<and> sorted (progress_values (fst (run_user_python_code scenario_env scenario_files
                                    ''data/in.csv'' ''map.xlsx'' [] ''Wave4'')))"
proof -
  have "progress_values (fst (run_user_python_code scenario_env scenario_files ''data/in.csv''
                           ''map.xlsx'' [] ''Wave4'')) = [100, 100]"
    by (simp add: scenario_run)
  with progress_invariant [OF surjective_pairing, of scenario_env scenario_files
      "''data/in.csv''" "''map.xlsx''" "[]" "''Wave4''"]
  show ?thesis unfolding list_all_iff by blast
qed

text \<open>
  C7 does not hold of the code. Each processed row tests one threshold only, the next one in
  the list, and so gives at most one milestone line. In the end-to-end scenario the single
  surviving row brings the percentage to 100 at once: the run succeeds, reports 100, and logs
  the first milestone line alone; the thresholds 25, 50, 75 and 100 are reached and get no
  line.
\<close>

theorem milestones_single_row:
  "snd (run_user_python_code scenario_env scenario_files ''data/in.csv'' ''map.xlsx'' []
          ''Wave4'') = Inr ()
   \<and> progress_values (fst (run_user_python_code scenario_env scenario_files ''data/in.csv''
                           ''map.xlsx'' [] ''Wave4'')) = [100, 100]
   \<and> milestones (fst (run_user_python_code scenario_env scenario_files ''data/in.csv''
                         ''map.xlsx'' [] ''Wave4'')) = [0]"
  by (simp add: scenario_run)


theorem milestones_single_row_witness:
  "length THRESHOLDS = 5
   \<and> milestones (fst (run_user_python_code scenario_env scenario_files ''data/in.csv''
                         ''map.xlsx'' [] ''Wave4'')) = [0]"
  using milestones_single_row by (simp add: THRESHOLDS_def)

lemma str_in_append: "str_in sub (a @ sub @ b)"
proof (induction a)
  case Nil
  have "starts_with sub (sub @ b)" by (simp add: starts_with_iff)
  then show ?case by (cases "sub @ b") auto
next
  case (Cons c a)
  then show ?case by simp
qed

lemma join_str_has: "c \<in> set xs \<Longrightarrow> \<exists>a b. join_str sep xs = a @ c @ b"
proof (induction sep xs rule: join_str.induct)
  case (1 sep)
  then show ?case by simp
next
  case (2 sep x)
  then have "join_str sep [x] = [] @ c @ []" by simp
  then show ?case by blast
next
  case (3 sep x y ys)
  show ?case
  proof (cases "c = x")
    case True
    then have "join_str sep (x # y # ys) = [] @ c @ (sep @ join_str sep (y # ys))" by simp
    then show ?thesis by blast
  next
    case False
    with 3 obtain a b where "join_str sep (y # ys) = a @ c @ b" by auto
    then have "join_str sep (x # y # ys) = (x @ sep @ a) @ c @ b" by simp
    then show ?thesis by blast
  qed
qed

lemma message_lists: "c \<in> set xs \<Longrightarrow> str_in c (pre @ join_str sep xs)"
proof -
  assume "c \<in> set xs"
  then obtain a b where "join_str sep xs = a @ c @ b"
    using join_str_has by blast
  then have "pre @ join_str sep xs = (pre @ a) @ c @ b" by simp
  then show ?thesis using str_in_append [of c "pre @ a" b] by simp
qed

text \<open>
  C8, as stated, fails: the header is checked in two steps, and the error of the first step
  names the missing filter columns only. With a server filter and a header that lacks both
  \<open>src_group\<close> and \<open>src_name\<close>, the one error raised lists \<open>src_group\<close> and not \<open>src_name\<close>.
\<close>

theorem schema_error_counterexample:
  "snd (run_user_python_code scenario_env [''data/in.csv'' \<mapsto> [[''dest_group'', ''dest_name'']]]
          ''data/in.csv'' ''map.xlsx'' [''A''] [])
     = Inl (ValueError ''Missing columns: src_group'')
   \<and> ''src_name'' \<notin> set [''dest_group'', ''dest_name'']
   \<and> \<not> str_in ''src_name'' ''Missing columns: src_group''"
proof -
  let ?fs = "[''data/in.csv'' \<mapsto> [[''dest_group'', ''dest_name'']]]"
  have c: "check_columns (fieldnames_of [[''dest_group'', ''dest_name'']]) [''A'']
             = Inl (ValueError ''Missing columns: src_group'')"
    by code_simp
  have e: "\<not> io_fails scenario_env AtOpenInput" "\<not> io_fails scenario_env AtCreateTemp"
    "\<not> io_fails scenario_env AtCountLines"
    "loaded scenario_env = Inr ([], [(''DC1'', [''10.0.0.0/24''])])"
    by (simp_all add: scenario_env_def)
  have f: "?fs ''data/in.csv'' = Some [[''dest_group'', ''dest_name'']]"
    "?fs (tmp_path scenario_env ''data/in.csv'') = None"
    by (simp_all add: scenario_paths)
  have "snd (run_user_python_code scenario_env ?fs ''data/in.csv'' ''map.xlsx'' [''A''] [])
          = Inl (ValueError ''Missing columns: src_group'')"
    by (simp only: snd_conv run_transform_failed [OF _ _ e(4) e(3) f(1)
            transform_schema_error [OF e(1) f(1) e(2) f(2) c],
              where selected_excel = "''map.xlsx''" and wave_filter = "[]"]
          list.distinct not_False_eq_True)
  moreover have "\<not> str_in ''src_name'' ''Missing columns: src_group''"
    by code_simp
  ultimately show ?thesis by simp
qed

text \<open>
  C8, amended. For an input with a header row, when the earlier steps of the run succeed:
  if one of the two filter columns is absent from the header, \<open>run_user_python_code\<close> fails
  with the single error \<open>Missing columns\<close>, whose message lists every missing filter column;
  if both filter columns are present, a server filter is configured and \<open>src_name\<close> or
  \<open>dest_name\<close> is absent, it fails with a single error whose fixed message names both
  \<open>src_name\<close> and \<open>dest_name\<close>. In both cases the run ends before any row is counted or
  processed: no record is written, no progress value and no milestone line is given.
\<close>

theorem schema_errors:
  assumes "selected_file \<noteq> []" and "selected_excel \<noteq> []"
    and "loaded e = Inr (srv_map, loc_map)"
    and "\<not> io_fails e AtCountLines" and "\<not> io_fails e AtOpenInput"
    and "\<not> io_fails e AtCreateTemp"
    and "fs selected_file = Some (header # records)"
    and "fs (tmp_path e selected_file) = None"
  shows "(filter (\<lambda>c. c \<notin> set header) FILTER_COLUMNS \<noteq> [] \<longrightarrow>
            snd (run_user_python_code e fs selected_file selected_excel server_filter wave_filter)
              = Inl (ValueError (''Missing columns: '' @
                       join_str '', '' (filter (\<lambda>c. c \<notin> set header) FILTER_COLUMNS)))
            \<and> (\<forall>c\<in>set FILTER_COLUMNS. c \<notin> set header \<longrightarrow>
                  str_in c (''Missing columns: '' @
                       join_str '', '' (filter (\<lambda>c. c \<notin> set header) FILTER_COLUMNS))))
       \<and> (filter (\<lambda>c. c \<notin> set header) FILTER_COLUMNS = [] \<and> server_filter \<noteq> []
            \<and> (''src_name'' \<notin> set header \<or> ''dest_name'' \<notin> set header) \<longrightarrow>
            snd (run_user_python_code e fs selected_file selected_excel server_filter wave_filter)
              = Inl (ValueError ''Colonne 'src_name' o 'dest_name' non trovate nel CSV''))
       \<and> str_in ''src_name'' ''Colonne 'src_name' o 'dest_name' non trovate nel CSV''
       \<and> str_in ''dest_name'' ''Colonne 'src_name' o 'dest_name' non trovate nel CSV''
       \<and> (filter (\<lambda>c. c \<notin> set header) FILTER_COLUMNS \<noteq> []
            \<or> (server_filter \<noteq> [] \<and> (''src_name'' \<notin> set header \<or> ''dest_name'' \<notin> set header))
          \<longrightarrow>
            progress_values (fst (run_user_python_code e fs selected_file selected_excel
                                    server_filter wave_filter)) = []
            \<and> milestones (fst (run_user_python_code e fs selected_file selected_excel
                                    server_filter wave_filter)) = []
            \<and> (\<forall>eff\<in>set (fst (run_user_python_code e fs selected_file selected_excel
                                    server_filter wave_filter)).
                  \<forall>p cells. eff \<noteq> WriteRecord p cells))"
proof -
  let ?missing = "filter (\<lambda>c. c \<notin> set header) FILTER_COLUMNS"
  let ?run = "run_user_python_code e fs selected_file selected_excel server_filter wave_filter"
  have run: "?run = ([Log (LoadingMappings selected_excel),
         Log (ServicesLoaded (length srv_map)), Log (LocationsLoaded (length loc_map)),
         ReadFile selected_file, Log (FoundRows (line_count e - 1))] @
        (if server_filter \<noteq> [] then [Log (FilteringServers server_filter)] else []) @
        (if wave_filter \<noteq> [] then [Log (FilteringWave wave_filter)] else []) @
        [Log CountingRows] @ [ReadFile selected_file, CreateTemp (tmp_path e selected_file)],
        Inl err)"
    if "check_columns (fieldnames_of (header # records)) server_filter = Inl err" for err
    using run_transform_failed [OF assms(1,2,3,4,7)
            transform_schema_error [OF assms(5,7,6,8) that]] .
  have first: "check_columns (fieldnames_of (header # records)) server_filter
                 = Inl (ValueError (''Missing columns: '' @ join_str '', '' ?missing))"
    if "?missing \<noteq> []"
    using that by (simp add: check_columns_def fieldnames_of_def Let_def)
  have second: "check_columns (fieldnames_of (header # records)) server_filter
                 = Inl (ValueError ''Colonne 'src_name' o 'dest_name' non trovate nel CSV'')"
    if "?missing = []" "server_filter \<noteq> []"
       "''src_name'' \<notin> set header \<or> ''dest_name'' \<notin> set header"
    using that by (simp add: check_columns_def fieldnames_of_def Let_def)
  have listed: "\<forall>c\<in>set FILTER_COLUMNS. c \<notin> set header \<longrightarrow>
                  str_in c (''Missing columns: '' @ join_str '', '' ?missing)"
    by (intro ballI impI message_lists) simp
  have names: "str_in ''src_name'' ''Colonne 'src_name' o 'dest_name' non trovate nel CSV''"
    "str_in ''dest_name'' ''Colonne 'src_name' o 'dest_name' non trovate nel CSV''"
    by code_simp+
  have a: "?missing \<noteq> [] \<longrightarrow>
            snd ?run = Inl (ValueError (''Missing columns: '' @ join_str '', '' ?missing))"
    using run [OF first] by simp
  have b: "?missing = [] \<and> server_filter \<noteq> []
            \<and> (''src_name'' \<notin> set header \<or> ''dest_name'' \<notin> set header) \<longrightarrow>
            snd ?run = Inl (ValueError ''Colonne 'src_name' o 'dest_name' non trovate nel CSV'')"
    using run [OF second] by simp
  have quiet: "progress_values (fst ?run) = [] \<and> milestones (fst ?run) = []
            \<and> (\<forall>eff\<in>set (fst ?run). \<forall>p cells. eff \<noteq> WriteRecord p cells)"
    if "check_columns (fieldnames_of (header # records)) server_filter = Inl err" for err
    by (simp add: run [OF that])
  have c: "?missing \<noteq> []
            \<or> (server_filter \<noteq> [] \<and> (''src_name'' \<notin> set header \<or> ''dest_name'' \<notin> set header))
          \<longrightarrow> progress_values (fst ?run) = [] \<and> milestones (fst ?run) = []
            \<and> (\<forall>eff\<in>set (fst ?run). \<forall>p cells. eff \<noteq> WriteRecord p cells)"
    using quiet [OF first] quiet [OF second] by blast
  show ?thesis
    using a b c listed names by blast
qed
theorem schema_errors_witness:
  "snd (run_user_python_code scenario_env [''data/in.csv'' \<mapsto> [[''src_name'', ''dest_name'']]]
          ''data/in.csv'' ''map.xlsx'' [] [])
     = Inl (ValueError ''Missing columns: src_group, dest_group'')
   \<and> str_in ''src_group'' ''Missing columns: src_group, dest_group''
   \<and> str_in ''dest_group'' ''Missing columns: src_group, dest_group''
   \<and> progress_values (fst (run_user_python_code scenario_env
          [''data/in.csv'' \<mapsto> [[''src_name'', ''dest_name'']]] ''data/in.csv'' ''map.xlsx'' [] []))
       = []
   \<and> snd (run_user_python_code scenario_env
          [''data/in.csv'' \<mapsto> [[''src_group'', ''dest_group'', ''dest_name'']]]
          ''data/in.csv'' ''map.xlsx'' [''A''] [])
     = Inl (ValueError ''Colonne 'src_name' o 'dest_name' non trovate nel CSV'')"
proof -
  let ?fs1 = "[''data/in.csv'' \<mapsto> [[''src_name'', ''dest_name'']]]"
  let ?fs2 = "[''data/in.csv'' \<mapsto> [[''src_group'', ''dest_group'', ''dest_name'']]]"
  have e: "loaded scenario_env = Inr ([], [(''DC1'', [''10.0.0.0/24''])])"
    "\<not> io_fails scenario_env AtCountLines" "\<not> io_fails scenario_env AtOpenInput"
    "\<not> io_fails scenario_env AtCreateTemp"
    by (simp_all add: scenario_env_def)
  have n: "''data/in.csv'' \<noteq> []" "''map.xlsx'' \<noteq> []" by simp_all
  have f1: "?fs1 ''data/in.csv'' = Some ([''src_name'', ''dest_name''] # [])"
    "?fs1 (tmp_path scenario_env ''data/in.csv'') = None"
    by (simp_all add: scenario_paths)
  have f2: "?fs2 ''data/in.csv'' = Some ([''src_group'', ''dest_group'', ''dest_name''] # [])"
    "?fs2 (tmp_path scenario_env ''data/in.csv'') = None"
    by (simp_all add: scenario_paths)
  have m1: "filter (\<lambda>c. c \<notin> set [''src_name'', ''dest_name'']) FILTER_COLUMNS
              = [''src_group'', ''dest_group'']"
    by code_simp
  have j1: "''Missing columns: '' @ join_str '', '' [''src_group'', ''dest_group'']
              = ''Missing columns: src_group, dest_group''"
    by code_simp
  have c1: "\<forall>c\<in>set FILTER_COLUMNS. c \<notin> set [''src_name'', ''dest_name'']"
    by code_simp
  have g1: "''src_group'' \<in> set FILTER_COLUMNS" "''dest_group'' \<in> set FILTER_COLUMNS"
    by code_simp+
  have m2: "filter (\<lambda>c. c \<notin> set [''src_group'', ''dest_group'', ''dest_name'']) FILTER_COLUMNS = []"
    by code_simp
  have s2: "''src_name'' \<notin> set [''src_group'', ''dest_group'', ''dest_name'']"
    by simp
  note w1 = schema_errors [OF n e(1,2,3,4) f1, of "[]" "[]", unfolded m1 j1]
  note w2 = schema_errors [OF n e(1,2,3,4) f2, of "[''A'']" "[]", unfolded m2]
  have a: "snd (run_user_python_code scenario_env ?fs1 ''data/in.csv'' ''map.xlsx'' [] [])
     = Inl (ValueError ''Missing columns: src_group, dest_group'')"
    "progress_values (fst (run_user_python_code scenario_env ?fs1 ''data/in.csv'' ''map.xlsx''
                             [] [])) = []"
    using w1 by blast+
  have b: "str_in ''src_group'' ''Missing columns: src_group, dest_group''"
    "str_in ''dest_group'' ''Missing columns: src_group, dest_group''"
    using w1 c1 g1 by blast+
  have c: "snd (run_user_python_code scenario_env ?fs2 ''data/in.csv'' ''map.xlsx'' [''A''] [])
     = Inl (ValueError ''Colonne 'src_name' o 'dest_name' non trovate nel CSV'')"
    using w2 s2 by blast
  show ?thesis
    using a b c by blast
qed

section \<open>Properties of the service index\<close>

lemma strip_all_space: "\<forall>c\<in>set v. isspace c \<Longrightarrow> strip v = []"
  by (auto simp: strip_def dest: set_dropWhileD)

lemma inner_fold_dom:
  "dom (fold (\<lambda>ip index. index(strip ip \<mapsto> service)) ips index) = dom index \<union> strip ` set ips"
  by (induction ips arbitrary: index) auto

lemma inner_fold_other:
  "k \<notin> strip ` set ips \<Longrightarrow> fold (\<lambda>ip index. index(strip ip \<mapsto> service)) ips index k = index k"
  by (induction ips arbitrary: index) auto

lemma outer_fold_dom:
  "dom (fold (\<lambda>(service, ips) index. fold (\<lambda>ip index. index(strip ip \<mapsto> service)) ips index) m index)
     = dom index \<union> strip ` (\<Union>(set ` snd ` set m))"
  by (induction m arbitrary: index) (simp_all add: inner_fold_dom split_beta Un_assoc image_Un)

lemma outer_fold_other:
  "\<forall>ips\<in>snd ` set m. k \<notin> strip ` set ips \<Longrightarrow>
   fold (\<lambda>(service, ips) index. fold (\<lambda>ip index. index(strip ip \<mapsto> service)) ips index) m index k
     = index k"
  by (induction m arbitrary: index) (auto simp: inner_fold_other)

lemma build_index_dom:
  "dom (build_ip_to_service_index m) = strip ` (\<Union>(set ` snd ` set m))"
  by (simp add: build_ip_to_service_index_def outer_fold_dom)

lemma build_index_last:
  assumes "\<forall>ip'\<in>set ips2. strip ip' \<noteq> strip ip"
    and "\<forall>ips'\<in>snd ` set m2. \<forall>ip'\<in>set ips'. strip ip' \<noteq> strip ip"
  shows "build_ip_to_service_index (m1 @ (service, ips1 @ ip # ips2) # m2) (strip ip) = Some service"
proof -
  have a: "\<forall>ips\<in>snd ` set m2. strip ip \<notin> strip ` set ips"
    using assms(2) by force
  have b: "strip ip \<notin> strip ` set ips2"
    using assms(1) by force
  show ?thesis
    by (simp add: build_ip_to_service_index_def outer_fold_other [OF a] inner_fold_other [OF b])
qed

lemma enrich_services_src:
  "enrich_row_with_services r idx ''src_service'' =
     Some (case idx (strip (get_or_empty r ''src_addr'')) of None \<Rightarrow> ''unknown'' | Some s \<Rightarrow> s)"
  by (simp add: enrich_row_with_services_def Let_def)

lemma enrich_services_dest:
  "enrich_row_with_services r idx ''dest_service'' =
     Some (case idx (strip (get_or_empty r ''dest_addr'')) of None \<Rightarrow> ''unknown'' | Some s \<Rightarrow> s)"
  by (simp add: enrich_row_with_services_def Let_def)

text \<open>
  C9, as the specification states it, fails: \<open>build_ip_to_service_index\<close> checks no syntax, so
  a service table with a text that is no IPv4 address gives an index with that text as a key.
\<close>

theorem service_index_keys_counterexample:
  "''not-an-ip'' \<in> dom (build_ip_to_service_index [(''Monitoring'', [''not-an-ip''])])
   \<and> IPv4Address ''not-an-ip'' = None"
proof -
  have "IPv4Address ''not-an-ip'' = None" by code_simp
  moreover have "strip ''not-an-ip'' = ''not-an-ip''" by code_simp
  ultimately show ?thesis by (simp add: build_index_dom)
qed

text \<open>
  C9, amended. The keys of the index built by \<open>build_ip_to_service_index\<close> are exactly the
  trimmed IP texts of the service table, with no check of their syntax; they all parse as
  IPv4 addresses whenever every IP text of the table, once trimmed, does.
\<close>

theorem service_index_keys:
  "dom (build_ip_to_service_index service_map) = strip ` (\<Union>(set ` snd ` set service_map))
   \<and> ((\<forall>ips\<in>snd ` set service_map. \<forall>ip\<in>set ips. IPv4Address (strip ip) \<noteq> None)
        \<longrightarrow> (\<forall>k\<in>dom (build_ip_to_service_index service_map). IPv4Address k \<noteq> None))"
  by (auto simp: build_index_dom)

theorem service_index_keys_witness:
  "IPv4Address (strip '' 10.0.0.1 '') \<noteq> None
   \<and> dom (build_ip_to_service_index [(''KMS'', ['' 10.0.0.1 ''])]) = {''10.0.0.1''}
   \<and> IPv4Address ''10.0.0.1'' \<noteq> None"
proof -
  have s: "strip '' 10.0.0.1 '' = ''10.0.0.1''" by code_simp
  have p: "IPv4Address ''10.0.0.1'' \<noteq> None" by code_simp
  have h: "\<forall>ips\<in>snd ` set [(''KMS'', ['' 10.0.0.1 ''])]. \<forall>ip\<in>set ips. IPv4Address (strip ip) \<noteq> None"
    using s p by simp
  show ?thesis
    using service_index_keys [of "[(''KMS'', ['' 10.0.0.1 ''])]"] h s p by simp
qed

text \<open>
  C10, as stated, fails when two services have an address that trims to the empty string:
  the later one owns the empty key, and a row without source address gets the later service,
  not the earlier one.
\<close>

theorem empty_address_counterexample:
  "(''A'', ['''']) \<in> set [(''A'', ['''']), (''B'', ['' ''])] \<and> strip '''' = []
   \<and> build_ip_to_service_index [(''A'', ['''']), (''B'', ['' ''])] [] = Some ''B''
   \<and> enrich_row_with_services Map.empty
        (build_ip_to_service_index [(''A'', ['''']), (''B'', ['' ''])]) ''src_service'' = Some ''B''"
proof -
  have s: "strip '''' = []" "strip '' '' = []" by code_simp+
  have b: "build_ip_to_service_index [(''A'', ['''']), (''B'', ['' ''])] [] = Some ''B''"
    by (simp add: build_ip_to_service_index_def s)
  show ?thesis
    using s b by (simp add: enrich_services_src get_or_empty_def)
qed

text \<open>
  C10, amended. When the service table has an entry whose IP text trims to the empty string,
  \<open>build_ip_to_service_index\<close> maps the empty string to the service of the last such entry
  in iteration order, and \<open>enrich_row_with_services\<close> then sets \<open>src_service\<close>
  (respectively \<open>dest_service\<close>) to that service, not to \<open>unknown\<close>, for every row whose
  \<open>src_addr\<close> (respectively \<open>dest_addr\<close>) is missing, empty or made of white space only.
\<close>

theorem empty_address_last_service:
  assumes "strip ip = []"
    and "\<forall>ip'\<in>set ips2. strip ip' \<noteq> []"
    and "\<forall>ips'\<in>snd ` set m2. \<forall>ip'\<in>set ips'. strip ip' \<noteq> []"
  shows "build_ip_to_service_index (m1 @ (service, ips1 @ ip # ips2) # m2) [] = Some service
    \<and> ((r ''src_addr'' = None \<or> (\<exists>v. r ''src_addr'' = Some v \<and> (\<forall>c\<in>set v. isspace c)))
         \<longrightarrow> enrich_row_with_services r
               (build_ip_to_service_index (m1 @ (service, ips1 @ ip # ips2) # m2)) ''src_service''
             = Some service)
    \<and> ((r ''dest_addr'' = None \<or> (\<exists>v. r ''dest_addr'' = Some v \<and> (\<forall>c\<in>set v. isspace c)))
         \<longrightarrow> enrich_row_with_services r
               (build_ip_to_service_index (m1 @ (service, ips1 @ ip # ips2) # m2)) ''dest_service''
             = Some service)"
proof -
  have e: "strip [] = []" by (simp add: strip_def)
  have idx: "build_ip_to_service_index (m1 @ (service, ips1 @ ip # ips2) # m2) [] = Some service"
    using build_index_last [of ips2 ip m2 m1 service ips1] assms by simp
  have blank: "strip (get_or_empty r col) = []"
    if "r col = None \<or> (\<exists>v. r col = Some v \<and> (\<forall>c\<in>set v. isspace c))" for col
    using that by (auto simp: get_or_empty_def e strip_all_space)
  show ?thesis
    using idx by (simp add: enrich_services_src enrich_services_dest blank)
qed

theorem empty_address_last_service_witness:
  "strip '' '' = [] \<and> strip ''10.0.0.2'' \<noteq> [] \<and> strip ''10.0.0.3'' \<noteq> []
   \<and> build_ip_to_service_index [(''Proxy'', [''10.0.0.1'', '' '', ''10.0.0.2'']), (''KMS'', [''10.0.0.3''])] []
       = Some ''Proxy''
   \<and> enrich_row_with_services [''src_addr'' \<mapsto> ''  '']
        (build_ip_to_service_index [(''Proxy'', [''10.0.0.1'', '' '', ''10.0.0.2'']), (''KMS'', [''10.0.0.3''])])
        ''src_service'' = Some ''Proxy''
   \<and> enrich_row_with_services [''src_addr'' \<mapsto> ''  '']
        (build_ip_to_service_index [(''Proxy'', [''10.0.0.1'', '' '', ''10.0.0.2'']), (''KMS'', [''10.0.0.3''])])
        ''dest_service'' = Some ''Proxy''"
proof -
  have h1: "strip '' '' = []" by code_simp
  have h2: "\<forall>ip'\<in>set [''10.0.0.2'']. strip ip' \<noteq> []" by code_simp
  have h3: "\<forall>ips'\<in>snd ` set [(''KMS'', [''10.0.0.3''])]. \<forall>ip'\<in>set ips'. strip ip' \<noteq> []"
    by code_simp
  have sp: "\<forall>c\<in>set ''  ''. isspace c" by code_simp
  show ?thesis
    using empty_address_last_service [OF h1 h2 h3, of "[]" "''Proxy''" "[''10.0.0.1'']"
            "[''src_addr'' \<mapsto> ''  '']"] h1 h2 h3 sp
    by simp
qed

end
